theory Spec2Isabelle
  imports Complex_Main "HOL-Library.Word"
begin

section \<open>Projection utilities (soslines.py, lines 6-36)\<close>

text \<open>
  Python floats (IEEE doubles) are modelled as the real numbers and \<open>np.pi\<close> as \<open>pi\<close>:
  rounding error is not part of the model.  Python integers are \<open>int\<close>.
  \<open>int(np.floor(x))\<close> is the floor \<open>\<lfloor>x\<rfloor>\<close> for every finite \<open>x\<close>.
\<close>

definition row2lat :: "int \<Rightarrow> int \<Rightarrow> real" where
  "row2lat height row = 90 - 180 * (real_of_int row + 0.5) / real_of_int height"

definition lat2row :: "int \<Rightarrow> real \<Rightarrow> int" where
  "lat2row height lat = \<lfloor>(90 - lat) * real_of_int height / 180\<rfloor>"

definition col2lon :: "int \<Rightarrow> int \<Rightarrow> real" where
  "col2lon height col = 180 * (real_of_int col + 0.5) / real_of_int height - 180"

definition lon2col :: "int \<Rightarrow> real \<Rightarrow> int" where
  "lon2col height lon = \<lfloor>(lon + 180) * real_of_int height / 180\<rfloor>"

type_synonym vec3 = "real \<times> real \<times> real"

definition latlon2vec :: "real \<Rightarrow> real \<Rightarrow> vec3" where
  "latlon2vec lat lon =
     (let cos_lon = cos (lon * pi / 180);
          sin_lon = sin (lon * pi / 180);
          cos_lat = cos (lat * pi / 180);
          sin_lat = sin (lat * pi / 180)
      in (cos_lat * cos_lon, cos_lat * sin_lon, sin_lat))"

text \<open>
  \<open>np.arctan2(y, x)\<close>: the angle of the point \<open>(x, y)\<close> in \<open>(-pi, pi]\<close>, with
  \<open>arctan2(0, 0) = 0\<close>.  The reals have no signed zero, so \<open>y = 0\<close> with \<open>x < 0\<close>
  gives \<open>pi\<close>.
\<close>

definition arctan2 :: "real \<Rightarrow> real \<Rightarrow> real" where
  "arctan2 y x =
     (if 0 < x then arctan (y / x)
      else if x < 0 then (if 0 \<le> y then arctan (y / x) + pi else arctan (y / x) - pi)
      else if 0 < y then pi / 2
      else if y < 0 then - (pi / 2)
      else 0)"

definition vec2latlon :: "vec3 \<Rightarrow> real \<times> real" where
  "vec2latlon vec =
     (case vec of (v0, v1, v2) \<Rightarrow>
        let xy_radius = sqrt (v0\<^sup>2 + v1\<^sup>2);
            z = v2;
            lat = arctan2 z xy_radius * 180 / pi;
            lon = arctan2 v1 v0 * 180 / pi
        in (lat, lon))"

section \<open>Vector operations of numpy used by the canvas\<close>

fun dot3 :: "vec3 \<Rightarrow> vec3 \<Rightarrow> real" where
  "dot3 (a0, a1, a2) (b0, b1, b2) = a0 * b0 + a1 * b1 + a2 * b2"

fun cross3 :: "vec3 \<Rightarrow> vec3 \<Rightarrow> vec3" where
  "cross3 (a0, a1, a2) (b0, b1, b2) =
     (a1 * b2 - a2 * b1, a2 * b0 - a0 * b2, a0 * b1 - a1 * b0)"

fun smult3 :: "real \<Rightarrow> vec3 \<Rightarrow> vec3" where
  "smult3 k (a0, a1, a2) = (k * a0, k * a1, k * a2)"

fun add3 :: "vec3 \<Rightarrow> vec3 \<Rightarrow> vec3" where
  "add3 (a0, a1, a2) (b0, b1, b2) = (a0 + b0, a1 + b1, a2 + b2)"

text \<open>\<open>np.sqrt(np.sum(v**2))\<close>\<close>

fun norm3 :: "vec3 \<Rightarrow> real" where
  "norm3 (a0, a1, a2) = sqrt (a0\<^sup>2 + a1\<^sup>2 + a2\<^sup>2)"

text \<open>
  \<open>v / n\<close> for an array \<open>v\<close> and a numpy scalar \<open>n\<close>.  numpy does not raise on a zero
  divisor: it warns and stores \<open>nan\<close> (for \<open>0 / 0\<close>) or an infinity.  The three call
  sites divide a vector by its own norm, so a zero divisor meets a zero vector and every
  component is \<open>nan\<close>: that result is \<open>None\<close> here.
\<close>

definition divide3 :: "vec3 \<Rightarrow> real \<Rightarrow> vec3 option" where
  "divide3 v n = (if n = 0 then None else Some (smult3 (1 / n) v))"

section \<open>The canvas (class Canvas, soslines.py lines 39-334)\<close>

datatype error = ValueError | OverflowError

type_synonym color = "8 word \<times> 8 word \<times> 8 word \<times> 8 word"

text \<open>\<open>color[i]\<close> for the indices \<open>0..3\<close> the code uses.\<close>

fun color_at :: "color \<Rightarrow> nat \<Rightarrow> 8 word" where
  "color_at (cr, cg, cb, ca) i =
     (if i = 0 then cr else if i = 1 then cg else if i = 2 then cb else ca)"

text \<open>
  The numpy arrays are total functions of their indices; only the entries inside the
  array's shape are ever read or written.  \<open>xyz\<close> has shape \<open>(height, 2 * height, 3)\<close>,
  \<open>canvas\<close> has shape \<open>(height, 2 * height)\<close> and \<open>rgba\<close> has shape
  \<open>(height, 2 * height, 4)\<close> with \<open>uint8\<close> entries.
\<close>

record Canvas =
  height :: int
  xyz :: "int \<Rightarrow> int \<Rightarrow> vec3"
  canvas :: "int \<Rightarrow> int \<Rightarrow> real"
  rgba :: "int \<Rightarrow> int \<Rightarrow> nat \<Rightarrow> 8 word"

text \<open>\<open>self.xyz.shape[1]\<close>\<close>

definition width :: "Canvas \<Rightarrow> int" where
  "width s = 2 * height s"

definition in_grid :: "int \<Rightarrow> int \<Rightarrow> int \<Rightarrow> int \<Rightarrow> bool" where
  "in_grid h w r c \<longleftrightarrow> 0 \<le> r \<and> r < h \<and> 0 \<le> c \<and> c < w"

text \<open>
  Storing a float into a \<open>uint8\<close> array is the C conversion: the value is truncated
  towards zero; a value outside \<open>[0, 256)\<close> wraps modulo 256 on the usual platforms.
\<close>

definition to_uint8 :: "real \<Rightarrow> 8 word" where
  "to_uint8 x = word_of_int (if 0 \<le> x then \<lfloor>x\<rfloor> else \<lceil>x\<rceil>)"

text \<open>\<open>Canvas.__init__\<close>; \<open>np.zeros\<close> raises \<open>ValueError\<close> on a negative dimension.\<close>

definition Canvas_init :: "int \<Rightarrow> error + Canvas" where
  "Canvas_init h =
     (if h < 0 then Inl ValueError
      else
        let w = 2 * h;
            lon = (\<lambda>col. col2lon h col);
            cos_lon = (\<lambda>col. cos (lon col * pi / 180));
            sin_lon = (\<lambda>col. sin (lon col * pi / 180));
            grid = fold (\<lambda>row a.
                     let lat = row2lat h row;
                         cos_lat = cos (lat * pi / 180)
                     in a(row := (\<lambda>col. if 0 \<le> col \<and> col < w
                            then (cos_lat * cos_lon col, cos_lat * sin_lon col,
                                  sin (lat * pi / 180))
                            else a row col)))
                   [0..h - 1] (\<lambda>_ _. (0, 0, 0))
        in Inr \<lparr>height = h, xyz = grid, canvas = (\<lambda>_ _. 0), rgba = (\<lambda>_ _ _. 0)\<rparr>)"

text \<open>\<open>transfer_canvas_to_rgba\<close> (lines 92-108): the flush.\<close>

definition transfer_canvas_to_rgba :: "Canvas \<Rightarrow> color \<Rightarrow> Canvas" where
  "transfer_canvas_to_rgba s color =
     (let h = height s;
          w = width s;
          alpha = (\<lambda>r c. real (unat (color_at color 3)) / 255 * canvas s r c);
          alpha_over = (\<lambda>r c. alpha r c + (1 - alpha r c) * real (unat (rgba s r c 3)) / 255);
          g = (\<lambda>r c. alpha_over r c > 0);
          alpha_top = (\<lambda>r c. if g r c then alpha r c / alpha_over r c else 0);
          alpha_bottom0 = (\<lambda>r c. (1 - alpha r c) * (real (unat (rgba s r c 3)) / 255));
          alpha_bottom = (\<lambda>r c. if g r c then alpha_bottom0 r c / alpha_over r c
                                  else alpha_bottom0 r c);
          rgba1 = fold (\<lambda>i a. (\<lambda>r c. if in_grid h w r c
                     then (a r c)(i := to_uint8 (alpha_top r c * real (unat (color_at color i))
                                                 + alpha_bottom r c * real (unat (a r c i))))
                     else a r c))
                   [0..<3] (rgba s);
          rgba2 = (\<lambda>r c. if in_grid h w r c
                     then (rgba1 r c)(3 := to_uint8 (alpha_over r c * 255))
                     else rgba1 r c)
      in s\<lparr>canvas := (\<lambda>r c. if in_grid h w r c then 0 else canvas s r c), rgba := rgba2\<rparr>)"

section \<open>Full-scan primitives (lines 115-185)\<close>

text \<open>
  Each \<open>_simple\<close> primitive scans every row: \<open>g = np.where(test)[0]\<close> and then
  \<open>self.canvas[row, g] = 1.0\<close>.  The vectorised statement acts on every column of the
  row at once.
\<close>

definition disk_simple :: "Canvas \<Rightarrow> real \<Rightarrow> real \<Rightarrow> real \<Rightarrow> color \<Rightarrow> bool \<Rightarrow> Canvas" where
  "disk_simple s lat lon diameter color transfer =
     (let h = height s;
          w = width s;
          center = latlon2vec lat lon;
          radius = 0.5 * diameter;
          dot_limit = cos (radius * pi / 180);
          cv = fold (\<lambda>row a.
                 let dots = (\<lambda>col. dot3 (xyz s row col) center)
                 in a(row := (\<lambda>col. if 0 \<le> col \<and> col < w \<and> dots col > dot_limit
                                       then 1 else a row col)))
               [0..h - 1] (canvas s);
          s1 = s\<lparr>canvas := cv\<rparr>
      in if transfer then transfer_canvas_to_rgba s1 color else s1)"

definition circle_simple ::
  "Canvas \<Rightarrow> real \<Rightarrow> real \<Rightarrow> real \<Rightarrow> real \<Rightarrow> color \<Rightarrow> bool \<Rightarrow> Canvas" where
  "circle_simple s lat lon diameter line_width color transfer =
     (let h = height s;
          w = width s;
          center = latlon2vec lat lon;
          radius = 0.5 * diameter;
          dot_limit0 = cos ((radius - 0.5 * line_width) * pi / 180);
          dot_limit1 = cos ((radius + 0.5 * line_width) * pi / 180);
          cv = fold (\<lambda>row a.
                 let dots = (\<lambda>col. dot3 (xyz s row col) center)
                 in a(row := (\<lambda>col. if 0 \<le> col \<and> col < w
                                          \<and> dots col < dot_limit0 \<and> dots col > dot_limit1
                                       then 1 else a row col)))
               [0..h - 1] (canvas s);
          s1 = s\<lparr>canvas := cv\<rparr>
      in if transfer then transfer_canvas_to_rgba s1 color else s1)"

text \<open>
  The strip test of a line (lines 181 and 251) and the end-cap test (lines 254 and 257)
  for the pixel direction \<open>p\<close>.  With a \<open>nan\<close> normal every dot product is \<open>nan\<close> and
  every comparison with \<open>nan\<close> is false, so no pixel passes.
\<close>

definition strip_test :: "vec3 option \<Rightarrow> vec3 \<Rightarrow> vec3 \<Rightarrow> real \<Rightarrow> vec3 \<Rightarrow> bool" where
  "strip_test orth vec_a vec_b dot_limit_width p =
     (case orth of
        None \<Rightarrow> False
      | Some n \<Rightarrow>
          let along_a = cross3 n vec_a;
              along_b = cross3 n vec_b;
              dots1 = dot3 p n;
              dots2 = dot3 p along_a;
              dots3 = dot3 p along_b
          in \<bar>dots1\<bar> < dot_limit_width \<and> dots2 > 0 \<and> dots3 < 0)"

definition cap_test :: "vec3 option \<Rightarrow> vec3 \<Rightarrow> real \<Rightarrow> vec3 \<Rightarrow> bool" where
  "cap_test orth vec_e dot_limit_width2 p =
     (case orth of
        None \<Rightarrow> False
      | Some n \<Rightarrow>
          let along_e = cross3 n vec_e;
              dots1 = dot3 p n;
              dots2 = dot3 p along_e
          in dots1\<^sup>2 + dots2\<^sup>2 < dot_limit_width2)"

definition line_simple ::
  "Canvas \<Rightarrow> real \<Rightarrow> real \<Rightarrow> real \<Rightarrow> real \<Rightarrow> real \<Rightarrow> color \<Rightarrow> bool \<Rightarrow> Canvas" where
  "line_simple s lat_a lon_a lat_b lon_b line_width color transfer =
     (let h = height s;
          w = width s;
          vec_a = latlon2vec lat_a lon_a;
          vec_b = latlon2vec lat_b lon_b;
          orth0 = cross3 vec_a vec_b;
          orth = divide3 orth0 (norm3 orth0);
          dot_limit_width = sin ((0.5 * line_width) * pi / 180);
          cv = fold (\<lambda>row a.
                 a(row := (\<lambda>col. if 0 \<le> col \<and> col < w
                                     \<and> strip_test orth vec_a vec_b dot_limit_width (xyz s row col)
                                  then 1 else a row col)))
               [0..h - 1] (canvas s);
          s1 = s\<lparr>canvas := cv\<rparr>
      in if transfer then transfer_canvas_to_rgba s1 color else s1)"

section \<open>Bounding-box primitives (lines 187-334)\<close>

text \<open>
  The four lines that turn a latitude/longitude box into the row/column rectangle
  \<open>[r0, r1) \<times> [c0, c1)\<close> (lines 237-240 and 316-319).
\<close>

definition box_rect :: "int \<Rightarrow> int \<Rightarrow> real \<Rightarrow> real \<Rightarrow> real \<Rightarrow> real \<Rightarrow> int \<times> int \<times> int \<times> int" where
  "box_rect h w min_lat max_lat min_lon max_lon =
     (let r0 = max (lat2row h max_lat - 1) 0;
          r1 = min (lat2row h min_lat + 2) h;
          c0 = max (lon2col h min_lon - 1) 0;
          c1 = min (lon2col h max_lon + 2) w
      in (r0, r1, c0, c1))"

text \<open>\<open>np.zeros((n, m))\<close> raises \<open>ValueError\<close> on a negative dimension.\<close>

definition np_zeros2 :: "int \<Rightarrow> int \<Rightarrow> error + (int \<Rightarrow> int \<Rightarrow> real)" where
  "np_zeros2 n m = (if n < 0 \<or> m < 0 then Inl ValueError else Inr (\<lambda>_ _. 0))"

definition in_rect :: "int \<times> int \<times> int \<times> int \<Rightarrow> int \<Rightarrow> int \<Rightarrow> bool" where
  "in_rect rect row col =
     (case rect of (r0, r1, c0, c1) \<Rightarrow> r0 \<le> row \<and> row < r1 \<and> c0 \<le> col \<and> col < c1)"

text \<open>
  \<open>self.canvas[r0:r1,c0:c1] = np.maximum(self.canvas[r0:r1,c0:c1], canvas)\<close>, where the
  local array \<open>canvas\<close> has the slice's shape (the slice bounds lie inside the array
  whenever \<open>np.zeros\<close> did not raise).
\<close>

definition merge_max ::
  "int \<times> int \<times> int \<times> int \<Rightarrow> (int \<Rightarrow> int \<Rightarrow> real) \<Rightarrow> (int \<Rightarrow> int \<Rightarrow> real) \<Rightarrow> (int \<Rightarrow> int \<Rightarrow> real)" where
  "merge_max rect local a =
     (case rect of (r0, r1, c0, c1) \<Rightarrow>
        (\<lambda>row col. if in_rect rect row col
                    then max (a row col) (local (row - r0) (col - c0))
                    else a row col))"

text \<open>
  The latitude/longitude box of \<open>line_segment_internal\<close> (lines 216-235) as
  \<open>(min_lat, max_lat, min_lon, max_lon)\<close>.  Where \<open>cos\<close> is exactly zero,
  \<open>scale = 1 / np.cos(...)\<close> is an infinity.  If one of the pole clamps applies it
  overwrites both longitude bounds, and the anti-meridian test that follows can only
  assign \<open>-180, 180\<close> again.  If no clamp applies (which needs \<open>line_width \<le> -10\<close>)
  the infinite bounds reach \<open>int(np.floor(...))\<close> in \<open>lon2col\<close>, which raises
  \<open>OverflowError\<close>.
\<close>

definition segment_box ::
  "real \<Rightarrow> real \<Rightarrow> real \<Rightarrow> real \<Rightarrow> real \<Rightarrow> error + (real \<times> real \<times> real \<times> real)" where
  "segment_box lat_a lon_a lat_b lon_b line_width =
     (let max_lat0 = max \<bar>lat_a\<bar> \<bar>lat_b\<bar>;
          cos_max = cos (max_lat0 * pi / 180);
          min_lat1 = min lat_a lat_b - 0.5 * line_width;
          max_lat1 = max lat_a lat_b + 0.5 * line_width
      in if cos_max = 0 then
           (if max_lat1 > 85 \<or> min_lat1 < - 85
            then Inr (if min_lat1 < - 85 then - 90 else min_lat1,
                      if max_lat1 > 85 then 90 else max_lat1, - 180, 180)
            else Inl OverflowError)
         else
           let scale = 1 / cos_max;
               min_lon1 = min lon_a lon_b - 0.5 * line_width * scale;
               max_lon1 = max lon_a lon_b + 0.5 * line_width * scale;
               (max_lat2, min_lon2, max_lon2) =
                 (if max_lat1 > 85 then (90, - 180, 180) else (max_lat1, min_lon1, max_lon1));
               (min_lat3, min_lon3, max_lon3) =
                 (if min_lat1 < - 85 then (- 90, - 180, 180) else (min_lat1, min_lon2, max_lon2));
               (min_lon4, max_lon4) =
                 (if max_lon3 > 180 - 0.5 * line_width * scale
                      \<or> min_lon3 < - 180 + 0.5 * line_width * scale
                  then (- 180, 180) else (min_lon3, max_lon3))
           in Inr (min_lat3, max_lat2, min_lon4, max_lon4))"

definition line_segment_internal ::
  "Canvas \<Rightarrow> real \<Rightarrow> real \<Rightarrow> real \<Rightarrow> real \<Rightarrow> real \<Rightarrow> color \<Rightarrow> bool \<Rightarrow> error + Canvas" where
  "line_segment_internal s lat_a lon_a lat_b lon_b line_width color transfer =
     (let h = height s;
          w = width s;
          vec_a = latlon2vec lat_a lon_a;
          vec_b = latlon2vec lat_b lon_b;
          orth0 = cross3 vec_a vec_b;
          orth = divide3 orth0 (norm3 orth0);
          dot_limit_width = sin ((0.5 * line_width) * pi / 180);
          dot_limit_width2 = dot_limit_width\<^sup>2
      in case segment_box lat_a lon_a lat_b lon_b line_width of
           Inl e \<Rightarrow> Inl e
         | Inr (min_lat, max_lat, min_lon, max_lon) \<Rightarrow>
             (case box_rect h w min_lat max_lat min_lon max_lon of
                (r0, r1, c0, c1) \<Rightarrow>
                  (case np_zeros2 (r1 - r0) (c1 - c0) of
                     Inl e \<Rightarrow> Inl e
                   | Inr zeros \<Rightarrow>
                       let local = fold (\<lambda>(r, row) a.
                             let px = (\<lambda>g. xyz s row (c0 + g));
                                 inside = (\<lambda>g. 0 \<le> g \<and> g < c1 - c0);
                                 a1 = (\<lambda>g. if inside g
                                          \<and> strip_test orth vec_a vec_b dot_limit_width (px g)
                                        then 1 else a r g);
                                 a2 = (\<lambda>g. if inside g
                                          \<and> cap_test orth vec_a dot_limit_width2 (px g)
                                        then 1 else a1 g);
                                 a3 = (\<lambda>g. if inside g
                                          \<and> cap_test orth vec_b dot_limit_width2 (px g)
                                        then 1 else a2 g)
                             in a(r := a3))
                             (map (\<lambda>row. (row - r0, row)) [r0..r1 - 1]) zeros;
                           s1 = s\<lparr>canvas := merge_max (r0, r1, c0, c1) local (canvas s)\<rparr>
                       in Inr (if transfer then transfer_canvas_to_rgba s1 color else s1))))"

text \<open>\<open>int(x)\<close> of a finite float truncates towards zero.\<close>

definition py_int :: "real \<Rightarrow> int" where
  "py_int x = (if 0 \<le> x then \<lfloor>x\<rfloor> else \<lceil>x\<rceil>)"

definition line_angle :: "vec3 \<Rightarrow> vec3 \<Rightarrow> real" where
  "line_angle vec_a vec_b =
     (let orth = cross3 vec_a vec_b;
          sin_theta = norm3 orth;
          cos_theta = dot3 vec_a vec_b
      in arctan2 sin_theta cos_theta * 180 / pi)"

definition line_divisions :: "real \<Rightarrow> int" where
  "line_divisions angle = (let max_step = 5 in py_int (angle / max_step + 1))"

text \<open>\<open>vec_a * np.cos(t * np.pi/180) + along_a * np.sin(t * np.pi/180)\<close>\<close>

definition line_vec :: "vec3 \<Rightarrow> vec3 \<Rightarrow> real \<Rightarrow> vec3" where
  "line_vec vec_a along_a t =
     add3 (smult3 (cos (t * pi / 180)) vec_a) (smult3 (sin (t * pi / 180)) along_a)"

text \<open>The body of \<open>for d in range(divisions)\<close> (lines 287-293), over the list of \<open>d\<close>.\<close>

fun line_loop ::
  "vec3 \<Rightarrow> vec3 \<Rightarrow> real \<Rightarrow> real \<Rightarrow> color \<Rightarrow> int list \<Rightarrow> Canvas \<Rightarrow> error + Canvas" where
  "line_loop vec_a along_a step line_width color [] s = Inr s"
| "line_loop vec_a along_a step line_width color (d # ds) s =
     (let vec0 = line_vec vec_a along_a (real_of_int d * step);
          vec1 = line_vec vec_a along_a (real_of_int (d + 1) * step);
          (lat_0, lon_0) = vec2latlon vec0;
          (lat_1, lon_1) = vec2latlon vec1
      in case line_segment_internal s lat_0 lon_0 lat_1 lon_1 line_width color False of
           Inl e \<Rightarrow> Inl e
         | Inr s' \<Rightarrow> line_loop vec_a along_a step line_width color ds s')"

text \<open>
  \<open>line\<close> (lines 268-298).  With a zero \<open>sin_theta\<close> the normal is \<open>nan\<close>, so are
  \<open>along_a\<close>, \<open>vec0\<close> (\<open>nan * 0\<close> is \<open>nan\<close>) and the latitude and longitude
  \<open>vec2latlon\<close> returns; \<open>divisions\<close> is at least 1, so the loop body runs and
  \<open>line_segment_internal\<close> reaches \<open>int(np.floor(nan))\<close> in \<open>lat2row\<close>, which raises
  \<open>ValueError\<close>.
\<close>

definition line ::
  "Canvas \<Rightarrow> real \<Rightarrow> real \<Rightarrow> real \<Rightarrow> real \<Rightarrow> real \<Rightarrow> color \<Rightarrow> bool \<Rightarrow> error + Canvas" where
  "line s lat_a lon_a lat_b lon_b line_width color transfer =
     (let vec_a = latlon2vec lat_a lon_a;
          vec_b = latlon2vec lat_b lon_b;
          orth0 = cross3 vec_a vec_b;
          sin_theta = norm3 orth0
      in case divide3 orth0 sin_theta of
           None \<Rightarrow> Inl ValueError
         | Some orth \<Rightarrow>
             let along_a = cross3 orth vec_a;
                 angle = line_angle vec_a vec_b;
                 divisions = line_divisions angle;
                 step = angle / real_of_int divisions
             in case line_loop vec_a along_a step line_width color [0..divisions - 1] s of
                  Inl e \<Rightarrow> Inl e
                | Inr s1 \<Rightarrow> Inr (if transfer then transfer_canvas_to_rgba s1 color else s1))"

text \<open>
  The latitude/longitude box of \<open>disk\<close> (lines 309-314).  Where \<open>cos\<close> is exactly zero,
  \<open>scale\<close> is an infinity and the longitude bounds are infinite (\<open>nan\<close> for a zero
  diameter); \<open>int(np.floor(...))\<close> in \<open>lon2col\<close> then raises \<open>OverflowError\<close>
  (\<open>ValueError\<close> for \<open>nan\<close>, which also arises from \<open>inf * 0\<close> when the height is 0).
\<close>

definition disk_box ::
  "int \<Rightarrow> real \<Rightarrow> real \<Rightarrow> real \<Rightarrow> error + (real \<times> real \<times> real \<times> real)" where
  "disk_box h lat lon diameter =
     (let min_lat = lat - 0.5 * diameter;
          max_lat = lat + 0.5 * diameter;
          cos_lat = cos (lat * pi / 180)
      in if cos_lat = 0 then
           (if diameter = 0 \<or> h = 0 then Inl ValueError else Inl OverflowError)
         else
           let scale = 1 / cos_lat;
               min_lon = lon - 0.5 * diameter * scale;
               max_lon = lon + 0.5 * diameter * scale
           in Inr (min_lat, max_lat, min_lon, max_lon))"

text \<open>The direct blend of lines 330-331 into one channel of the rectangle.\<close>

definition highlight ::
  "int \<times> int \<times> int \<times> int \<Rightarrow> nat \<Rightarrow> (int \<Rightarrow> int \<Rightarrow> nat \<Rightarrow> 8 word) \<Rightarrow> (int \<Rightarrow> int \<Rightarrow> nat \<Rightarrow> 8 word)" where
  "highlight rect i a =
     (\<lambda>row col. if in_rect rect row col
                 then (a row col)(i := to_uint8 (0.5 * real (unat (a row col i)) + 0.5 * 255))
                 else a row col)"

definition disk :: "Canvas \<Rightarrow> real \<Rightarrow> real \<Rightarrow> real \<Rightarrow> color \<Rightarrow> bool \<Rightarrow> error + Canvas" where
  "disk s lat lon diameter color transfer =
     (let h = height s;
          w = width s;
          center = latlon2vec lat lon;
          radius = 0.5 * diameter;
          dot_limit = cos (radius * pi / 180)
      in case disk_box h lat lon diameter of
           Inl e \<Rightarrow> Inl e
         | Inr (min_lat, max_lat, min_lon, max_lon) \<Rightarrow>
             (case box_rect h w min_lat max_lat min_lon max_lon of
                (r0, r1, c0, c1) \<Rightarrow>
                  (case np_zeros2 (r1 - r0) (c1 - c0) of
                     Inl e \<Rightarrow> Inl e
                   | Inr zeros \<Rightarrow>
                       let local = fold (\<lambda>(r, row) a.
                             let dots = (\<lambda>g. dot3 (xyz s row (c0 + g)) center)
                             in a(r := (\<lambda>g. if 0 \<le> g \<and> g < c1 - c0 \<and> dots g > dot_limit
                                            then 1 else a r g)))
                             (map (\<lambda>row. (row - r0, row)) [r0..r1 - 1]) zeros;
                           rect = (r0, r1, c0, c1);
                           s1 = s\<lparr>canvas := merge_max rect local (canvas s),
                                  rgba := highlight rect 3 (highlight rect 0 (rgba s))\<rparr>
                       in Inr (if transfer then transfer_canvas_to_rgba s1 color else s1))))"

section \<open>Reachable canvases\<close>

text \<open>
  The states a program can produce through the class: a new canvas, followed by any
  sequence of the drawing calls and flushes that return normally.
\<close>

inductive reachable :: "Canvas \<Rightarrow> bool" where
  reach_init: "Canvas_init h = Inr s \<Longrightarrow> reachable s"
| reach_flush: "reachable s \<Longrightarrow> reachable (transfer_canvas_to_rgba s color)"
| reach_disk_simple:
    "reachable s \<Longrightarrow> reachable (disk_simple s lat lon diameter color transfer)"
| reach_circle_simple:
    "reachable s \<Longrightarrow> reachable (circle_simple s lat lon diameter line_width color transfer)"
| reach_line_simple:
    "reachable s \<Longrightarrow> reachable (line_simple s lat_a lon_a lat_b lon_b line_width color transfer)"
| reach_segment:
    "reachable s \<Longrightarrow>
     line_segment_internal s lat_a lon_a lat_b lon_b line_width color transfer = Inr s' \<Longrightarrow>
     reachable s'"
| reach_line:
    "reachable s \<Longrightarrow>
     line s lat_a lon_a lat_b lon_b line_width color transfer = Inr s' \<Longrightarrow>
     reachable s'"
| reach_disk:
    "reachable s \<Longrightarrow> disk s lat lon diameter color transfer = Inr s' \<Longrightarrow> reachable s'"

section \<open>Pixel tests and rectangles of the primitives\<close>

text \<open>The test each primitive applies to the direction of pixel \<open>(row, col)\<close>.\<close>

definition disk_test :: "Canvas \<Rightarrow> real \<Rightarrow> real \<Rightarrow> real \<Rightarrow> int \<Rightarrow> int \<Rightarrow> bool" where
  "disk_test s lat lon diameter row col \<longleftrightarrow>
     dot3 (xyz s row col) (latlon2vec lat lon) > cos (0.5 * diameter * pi / 180)"

definition circle_test :: "Canvas \<Rightarrow> real \<Rightarrow> real \<Rightarrow> real \<Rightarrow> real \<Rightarrow> int \<Rightarrow> int \<Rightarrow> bool" where
  "circle_test s lat lon diameter line_width row col \<longleftrightarrow>
     dot3 (xyz s row col) (latlon2vec lat lon)
       < cos ((0.5 * diameter - 0.5 * line_width) * pi / 180)
     \<and> dot3 (xyz s row col) (latlon2vec lat lon)
       > cos ((0.5 * diameter + 0.5 * line_width) * pi / 180)"

definition line_test ::
  "Canvas \<Rightarrow> real \<Rightarrow> real \<Rightarrow> real \<Rightarrow> real \<Rightarrow> real \<Rightarrow> int \<Rightarrow> int \<Rightarrow> bool" where
  "line_test s lat_a lon_a lat_b lon_b line_width row col \<longleftrightarrow>
     strip_test
       (divide3 (cross3 (latlon2vec lat_a lon_a) (latlon2vec lat_b lon_b))
                (norm3 (cross3 (latlon2vec lat_a lon_a) (latlon2vec lat_b lon_b))))
       (latlon2vec lat_a lon_a) (latlon2vec lat_b lon_b)
       (sin ((0.5 * line_width) * pi / 180)) (xyz s row col)"

definition segment_test ::
  "Canvas \<Rightarrow> real \<Rightarrow> real \<Rightarrow> real \<Rightarrow> real \<Rightarrow> real \<Rightarrow> int \<Rightarrow> int \<Rightarrow> bool" where
  "segment_test s lat_a lon_a lat_b lon_b line_width row col \<longleftrightarrow>
     (let vec_a = latlon2vec lat_a lon_a;
          vec_b = latlon2vec lat_b lon_b;
          orth = divide3 (cross3 vec_a vec_b) (norm3 (cross3 vec_a vec_b));
          dot_limit_width = sin ((0.5 * line_width) * pi / 180);
          p = xyz s row col
      in strip_test orth vec_a vec_b dot_limit_width p
         \<or> cap_test orth vec_a (dot_limit_width\<^sup>2) p
         \<or> cap_test orth vec_b (dot_limit_width\<^sup>2) p)"

text \<open>The rectangle \<open>(r0, r1, c0, c1)\<close> a bounded primitive computes, if it gets that far.\<close>

definition disk_rect :: "Canvas \<Rightarrow> real \<Rightarrow> real \<Rightarrow> real \<Rightarrow> (int \<times> int \<times> int \<times> int) option" where
  "disk_rect s lat lon diameter =
     (case disk_box (height s) lat lon diameter of
        Inl e \<Rightarrow> None
      | Inr (min_lat, max_lat, min_lon, max_lon) \<Rightarrow>
          Some (box_rect (height s) (width s) min_lat max_lat min_lon max_lon))"

definition segment_rect ::
  "Canvas \<Rightarrow> real \<Rightarrow> real \<Rightarrow> real \<Rightarrow> real \<Rightarrow> real \<Rightarrow> (int \<times> int \<times> int \<times> int) option" where
  "segment_rect s lat_a lon_a lat_b lon_b line_width =
     (case segment_box lat_a lon_a lat_b lon_b line_width of
        Inl e \<Rightarrow> None
      | Inr (min_lat, max_lat, min_lon, max_lon) \<Rightarrow>
          Some (box_rect (height s) (width s) min_lat max_lat min_lon max_lon))"

text \<open>The pixels a bounded primitive sets: those of its rectangle that pass its test.\<close>

definition disk_cover :: "Canvas \<Rightarrow> real \<Rightarrow> real \<Rightarrow> real \<Rightarrow> int \<Rightarrow> int \<Rightarrow> bool" where
  "disk_cover s lat lon diameter row col \<longleftrightarrow>
     (case disk_rect s lat lon diameter of
        None \<Rightarrow> False
      | Some rect \<Rightarrow> in_rect rect row col \<and> disk_test s lat lon diameter row col)"

definition segment_cover ::
  "Canvas \<Rightarrow> real \<Rightarrow> real \<Rightarrow> real \<Rightarrow> real \<Rightarrow> real \<Rightarrow> int \<Rightarrow> int \<Rightarrow> bool" where
  "segment_cover s lat_a lon_a lat_b lon_b line_width row col \<longleftrightarrow>
     (case segment_rect s lat_a lon_a lat_b lon_b line_width of
        None \<Rightarrow> False
      | Some rect \<Rightarrow> in_rect rect row col
                     \<and> segment_test s lat_a lon_a lat_b lon_b line_width row col)"

text \<open>
  The two endpoints \<open>(lat_0, lon_0, lat_1, lon_1)\<close> that \<open>line\<close> hands to
  \<open>line_segment_internal\<close> for the division \<open>d\<close>.
\<close>

definition line_endpoints ::
  "real \<Rightarrow> real \<Rightarrow> real \<Rightarrow> real \<Rightarrow> int \<Rightarrow> (real \<times> real) \<times> (real \<times> real)" where
  "line_endpoints lat_a lon_a lat_b lon_b d =
     (let vec_a = latlon2vec lat_a lon_a;
          vec_b = latlon2vec lat_b lon_b;
          orth0 = cross3 vec_a vec_b;
          along_a = cross3 (smult3 (1 / norm3 orth0) orth0) vec_a;
          angle = line_angle vec_a vec_b;
          step = angle / real_of_int (line_divisions angle)
      in (vec2latlon (line_vec vec_a along_a (real_of_int d * step)),
          vec2latlon (line_vec vec_a along_a (real_of_int (d + 1) * step))))"

definition line_cover ::
  "Canvas \<Rightarrow> real \<Rightarrow> real \<Rightarrow> real \<Rightarrow> real \<Rightarrow> real \<Rightarrow> int \<Rightarrow> int \<Rightarrow> bool" where
  "line_cover s lat_a lon_a lat_b lon_b line_width row col \<longleftrightarrow>
     (\<exists>d. 0 \<le> d
        \<and> d < line_divisions (line_angle (latlon2vec lat_a lon_a) (latlon2vec lat_b lon_b))
        \<and> (case line_endpoints lat_a lon_a lat_b lon_b d of
             ((lat_0, lon_0), (lat_1, lon_1)) \<Rightarrow>
               segment_cover s lat_0 lon_0 lat_1 lon_1 line_width row col))"

section \<open>The flush formula in the words of the specification\<close>

definition spec_newA :: "real \<Rightarrow> 8 word \<Rightarrow> real" where
  "spec_newA coverage color_alpha = coverage * real (unat color_alpha) / 255"

definition spec_combinedA :: "real \<Rightarrow> 8 word \<Rightarrow> real" where
  "spec_combinedA newA existingA = newA + (1 - newA) * real (unat existingA) / 255"

definition spec_topWeight :: "real \<Rightarrow> real \<Rightarrow> real" where
  "spec_topWeight newA combinedA = newA / combinedA"

definition spec_bottomWeight :: "real \<Rightarrow> 8 word \<Rightarrow> real \<Rightarrow> real" where
  "spec_bottomWeight newA existingA combinedA =
     (1 - newA) * (real (unat existingA) / 255) / combinedA"


text \<open>
  An example state: a canvas of height 1 after a half-transparent full disk was flushed
  and a second full disk was drawn without flushing.
\<close>

definition flush_example :: Canvas where
  "flush_example =
     disk_simple (disk_simple (projr (Canvas_init 1)) 0 0 360 (0, 0, 0, 128) True)
       0 0 360 (255, 255, 255, 128) False"

text \<open>
  What every reachable canvas satisfies: the mask holds only 0 and 1, and a pixel with
  alpha 0 is \<open>(0, 0, 0, 0)\<close>.
\<close>

definition canvas_inv :: "Canvas \<Rightarrow> bool" where
  "canvas_inv s \<longleftrightarrow>
     (\<forall>r c. canvas s r c = 0 \<or> canvas s r c = 1)
     \<and> (\<forall>r c i. rgba s r c 3 = 0 \<longrightarrow> i < 3 \<longrightarrow> rgba s r c i = 0)"

text \<open>
  The two endpoints computed in the body of the loop of \<open>line\<close> for the division \<open>d\<close>.
\<close>

definition step_endpoints ::
  "vec3 \<Rightarrow> vec3 \<Rightarrow> real \<Rightarrow> int \<Rightarrow> (real \<times> real) \<times> (real \<times> real)" where
  "step_endpoints vec_a along_a step d =
     (vec2latlon (line_vec vec_a along_a (real_of_int d * step)),
      vec2latlon (line_vec vec_a along_a (real_of_int (d + 1) * step)))"

definition step_cover ::
  "Canvas \<Rightarrow> vec3 \<Rightarrow> vec3 \<Rightarrow> real \<Rightarrow> real \<Rightarrow> int \<Rightarrow> int \<Rightarrow> int \<Rightarrow> bool" where
  "step_cover s vec_a along_a step line_width d row col \<longleftrightarrow>
     (case step_endpoints vec_a along_a step d of
        ((lat_0, lon_0), (lat_1, lon_1)) \<Rightarrow>
          segment_cover s lat_0 lon_0 lat_1 lon_1 line_width row col)"

text \<open>
  \<open>new\<close> is the pointwise maximum of \<open>old\<close> and a 0-or-1 coverage; its entries lie in
  \<open>[0, 1]\<close> and none is smaller than before.
\<close>

definition max_merge ::
  "(int \<Rightarrow> int \<Rightarrow> real) \<Rightarrow> (int \<Rightarrow> int \<Rightarrow> bool) \<Rightarrow> (int \<Rightarrow> int \<Rightarrow> real) \<Rightarrow> bool" where
  "max_merge old cover new \<longleftrightarrow>
     (\<forall>row col. new row col = max (old row col) (of_bool (cover row col))
                \<and> 0 \<le> new row col \<and> new row col \<le> 1 \<and> old row col \<le> new row col)"


section \<open>Loops over rows, pointwise\<close>

lemma fold_upd_upto:
  "fold (\<lambda>row a. a(row - off := F row (a (row - off)))) [lo..hi] a x
     = (if lo \<le> x + off \<and> x + off \<le> hi then F (x + off) (a x) else a x)"
proof (induction "nat (hi + 1 - lo)" arbitrary: hi)
  case 0
  then have "hi < lo" by simp
  then show ?case by auto
next
  case (Suc n)
  then have le: "lo \<le> hi" by simp
  have split: "[lo..hi] = [lo..hi - 1] @ [hi]"
    using le by (simp add: upto_rec2)
  have n: "n = nat (hi - 1 + 1 - lo)" using Suc.hyps(2) by simp
  show ?case
    unfolding split using Suc.hyps(1)[OF n] le by auto
qed

lemma fold_upd_pairs:
  "fold (\<lambda>(r, row) a. a(r := F row (a r))) (map (\<lambda>row. (row - r0, row)) [lo..hi]) a x
     = (if lo \<le> x + r0 \<and> x + r0 \<le> hi then F (x + r0) (a x) else a x)"
proof -
  have "fold (\<lambda>(r, row) a. a(r := F row (a r))) (map (\<lambda>row. (row - r0, row)) [lo..hi]) a
      = fold (\<lambda>row a. a(row - r0 := F row (a (row - r0)))) [lo..hi] a"
    by (simp add: fold_map comp_def)
  then show ?thesis by (simp only: fold_upd_upto)
qed


lemma fold_upd_rows:
  "fold (\<lambda>row a. a(row := F row (a row))) [lo..hi] a x
     = (if lo \<le> x \<and> x \<le> hi then F x (a x) else a x)"
  using fold_upd_upto [of 0 F lo hi a x] by simp


section \<open>The primitives, pixel by pixel\<close>

lemma disk_simple_canvas:
  "canvas (disk_simple s lat lon diameter color False) row col
     = (if in_grid (height s) (width s) row col \<and> disk_test s lat lon diameter row col
        then 1 else canvas s row col)"
proof -
  let ?F = "\<lambda>row (old :: int \<Rightarrow> real) col.
      if 0 \<le> col \<and> col < width s \<and> disk_test s lat lon diameter row col then 1 else old col"
  have "canvas (disk_simple s lat lon diameter color False)
      = fold (\<lambda>row a. a(row := ?F row (a row))) [0..height s - 1] (canvas s)"
    by (simp add: disk_simple_def Let_def disk_test_def)
  then show ?thesis
    by (simp add: fold_upd_rows [where F = ?F] in_grid_def)
qed

lemma disk_simple_frame:
  "rgba (disk_simple s lat lon diameter color False) = rgba s"
  "height (disk_simple s lat lon diameter color False) = height s"
  "xyz (disk_simple s lat lon diameter color False) = xyz s"
  by (simp_all add: disk_simple_def Let_def)

lemma circle_simple_canvas:
  "canvas (circle_simple s lat lon diameter line_width color False) row col
     = (if in_grid (height s) (width s) row col
           \<and> circle_test s lat lon diameter line_width row col
        then 1 else canvas s row col)"
proof -
  let ?F = "\<lambda>row (old :: int \<Rightarrow> real) col.
      if 0 \<le> col \<and> col < width s \<and> circle_test s lat lon diameter line_width row col
      then 1 else old col"
  have "canvas (circle_simple s lat lon diameter line_width color False)
      = fold (\<lambda>row a. a(row := ?F row (a row))) [0..height s - 1] (canvas s)"
    by (simp add: circle_simple_def Let_def circle_test_def)
  then show ?thesis
    by (simp add: fold_upd_rows [where F = ?F] in_grid_def)
qed

lemma line_simple_canvas:
  "canvas (line_simple s lat_a lon_a lat_b lon_b line_width color False) row col
     = (if in_grid (height s) (width s) row col
           \<and> line_test s lat_a lon_a lat_b lon_b line_width row col
        then 1 else canvas s row col)"
proof -
  let ?F = "\<lambda>row (old :: int \<Rightarrow> real) col.
      if 0 \<le> col \<and> col < width s \<and> line_test s lat_a lon_a lat_b lon_b line_width row col
      then 1 else old col"
  have "canvas (line_simple s lat_a lon_a lat_b lon_b line_width color False)
      = fold (\<lambda>row a. a(row := ?F row (a row))) [0..height s - 1] (canvas s)"
    by (simp add: line_simple_def Let_def line_test_def)
  then show ?thesis
    by (simp add: fold_upd_rows [where F = ?F] in_grid_def)
qed

lemma upt3: "[0..<3] = [0, 1, 2::nat]"
  by (simp add: upt_rec)

lemma transfer_canvas:
  "canvas (transfer_canvas_to_rgba s color) r c
     = (if in_grid (height s) (width s) r c then 0 else canvas s r c)"
  by (simp add: transfer_canvas_to_rgba_def Let_def)

lemma transfer_frame:
  "height (transfer_canvas_to_rgba s color) = height s"
  "xyz (transfer_canvas_to_rgba s color) = xyz s"
  "width (transfer_canvas_to_rgba s color) = width s"
  by (simp_all add: transfer_canvas_to_rgba_def Let_def width_def)

lemma transfer_rgba_outside:
  "\<not> in_grid (height s) (width s) r c \<Longrightarrow>
   rgba (transfer_canvas_to_rgba s color) r c = rgba s r c"
  by (simp add: transfer_canvas_to_rgba_def Let_def upt3)

lemma transfer_rgba_alpha:
  "in_grid (height s) (width s) r c \<Longrightarrow>
   rgba (transfer_canvas_to_rgba s color) r c 3
     = to_uint8 (spec_combinedA (spec_newA (canvas s r c) (color_at color 3)) (rgba s r c 3) * 255)"
  by (simp add: transfer_canvas_to_rgba_def Let_def upt3 spec_combinedA_def spec_newA_def
      mult.commute)

lemma transfer_rgba_rgb:
  assumes "in_grid (height s) (width s) r c" and "i < 3"
  shows "rgba (transfer_canvas_to_rgba s color) r c i
     = (let newA = spec_newA (canvas s r c) (color_at color 3);
            combinedA = spec_combinedA newA (rgba s r c 3)
        in if 0 < combinedA
           then to_uint8 (spec_topWeight newA combinedA * real (unat (color_at color i))
                          + spec_bottomWeight newA (rgba s r c 3) combinedA
                            * real (unat (rgba s r c i)))
           else to_uint8 ((1 - newA) * (real (unat (rgba s r c 3)) / 255)
                          * real (unat (rgba s r c i))))"
proof -
  from assms(2) consider "i = 0" | "i = 1" | "i = 2" by linarith
  then show ?thesis
    using assms(1)
    by cases (simp_all add: transfer_canvas_to_rgba_def Let_def upt3 spec_combinedA_def
        spec_newA_def spec_topWeight_def spec_bottomWeight_def mult.commute)
qed

lemma transfer_rgba_other:
  "3 < i \<Longrightarrow> rgba (transfer_canvas_to_rgba s color) r c i = rgba s r c i"
  by (simp add: transfer_canvas_to_rgba_def Let_def upt3)

lemma merge_max_local:
  assumes "\<And>row col. in_rect (r0, r1, c0, c1) row col \<Longrightarrow>
             local (row - r0) (col - c0) = of_bool (P row col)"
  shows "merge_max (r0, r1, c0, c1) local a
       = (\<lambda>row col. if in_rect (r0, r1, c0, c1) row col
                     then max (a row col) (of_bool (P row col)) else a row col)"
  using assms by (auto simp add: merge_max_def fun_eq_iff)

lemma disk_result:
  assumes "disk s lat lon diameter color False = Inr s'"
  shows "\<exists>rect. disk_rect s lat lon diameter = Some rect
           \<and> canvas s' = (\<lambda>row col. if in_rect rect row col
                             then max (canvas s row col)
                                      (of_bool (disk_test s lat lon diameter row col))
                             else canvas s row col)
           \<and> rgba s' = highlight rect 3 (highlight rect 0 (rgba s))
           \<and> height s' = height s \<and> xyz s' = xyz s"
proof -
  obtain min_lat max_lat min_lon max_lon
    where box: "disk_box (height s) lat lon diameter = Inr (min_lat, max_lat, min_lon, max_lon)"
    using assms by (auto simp add: disk_def Let_def split: sum.splits)
  obtain r0 r1 c0 c1
    where rect: "box_rect (height s) (width s) min_lat max_lat min_lon max_lon = (r0, r1, c0, c1)"
    by (cases "box_rect (height s) (width s) min_lat max_lat min_lon max_lon") auto
  have zeros: "np_zeros2 (r1 - r0) (c1 - c0) = Inr (\<lambda>_ _. 0)"
    using assms box rect by (auto simp add: disk_def Let_def np_zeros2_def split: if_splits)
  let ?F = "\<lambda>row (old :: int \<Rightarrow> real) g.
      if 0 \<le> g \<and> g < c1 - c0
         \<and> dot3 (xyz s row (c0 + g)) (latlon2vec lat lon) > cos (0.5 * diameter * pi / 180)
      then 1 else old g"
  let ?local = "fold (\<lambda>(r, row) a. a(r := ?F row (a r)))
      (map (\<lambda>row. (row - r0, row)) [r0..r1 - 1]) (\<lambda>_ _. 0)"
  have s': "s' = s\<lparr>canvas := merge_max (r0, r1, c0, c1) ?local (canvas s),
                   rgba := highlight (r0, r1, c0, c1) 3 (highlight (r0, r1, c0, c1) 0 (rgba s))\<rparr>"
    using assms box rect zeros by (simp add: disk_def Let_def)
  have local: "?local (row - r0) (col - c0) = of_bool (disk_test s lat lon diameter row col)"
    if "in_rect (r0, r1, c0, c1) row col" for row col
    using that by (subst fold_upd_pairs [where F = ?F]) (simp add: in_rect_def disk_test_def)
  have "disk_rect s lat lon diameter = Some (r0, r1, c0, c1)"
    by (simp add: disk_rect_def box rect)
  moreover have "canvas s' = (\<lambda>row col. if in_rect (r0, r1, c0, c1) row col
                             then max (canvas s row col)
                                      (of_bool (disk_test s lat lon diameter row col))
                             else canvas s row col)"
    unfolding s' using merge_max_local [of r0 r1 c0 c1 ?local, OF local] by simp
  ultimately show ?thesis
    by (simp add: s')
qed

section \<open>Index range of the floor-based inverses\<close>

lemma lat2row_lower: "0 < H \<Longrightarrow> lat \<le> 90 \<Longrightarrow> 0 \<le> lat2row H lat"
  by (simp add: lat2row_def)

lemma lat2row_upper:
  assumes "0 < H" and "- 90 < lat"
  shows "lat2row H lat < H"
proof -
  have "(90 - lat) * real_of_int H < 180 * real_of_int H"
    using assms by simp
  then have "(90 - lat) * real_of_int H / 180 < real_of_int H"
    by simp
  then show ?thesis
    unfolding lat2row_def by (simp add: floor_less_iff)
qed

lemma lat2row_south_edge: "lat2row H (- 90) = H"
  by (simp add: lat2row_def)

lemma lon2col_lower: "0 < H \<Longrightarrow> - 180 \<le> lon \<Longrightarrow> 0 \<le> lon2col H lon"
  by (simp add: lon2col_def)

lemma lon2col_upper:
  assumes "0 < H" and "lon < 180"
  shows "lon2col H lon < 2 * H"
proof -
  have "(lon + 180) * real_of_int H < 360 * real_of_int H"
    using assms by simp
  then have "(lon + 180) * real_of_int H / 180 < real_of_int (2 * H)"
    by simp
  then show ?thesis
    unfolding lon2col_def by (simp only: floor_less_iff)
qed

lemma lon2col_east_edge: "lon2col H 180 = 2 * H"
proof -
  have "(180 + 180) * real_of_int H / 180 = real_of_int (2 * H)"
    by simp
  then show ?thesis
    unfolding lon2col_def by (simp only: floor_of_int)
qed

text \<open>
  C10.  For every height \<open>H > 0\<close>: \<open>lat2row H lat\<close> is a row index in \<open>[0, H)\<close> whenever
  \<open>-90 < lat \<le> 90\<close>, but \<open>lat2row H (-90) = H\<close>, one past the last row; and
  \<open>lon2col H lon\<close> is a column index in \<open>[0, 2H)\<close> whenever \<open>-180 \<le> lon < 180\<close>, but
  \<open>lon2col H 180 = 2H\<close>, one past the last column.
\<close>

theorem C10_index_range:
  assumes "0 < H"
  shows "(- 90 < lat \<and> lat \<le> 90 \<longrightarrow> 0 \<le> lat2row H lat \<and> lat2row H lat < H)
       \<and> lat2row H (- 90) = H
       \<and> (- 180 \<le> lon \<and> lon < 180 \<longrightarrow> 0 \<le> lon2col H lon \<and> lon2col H lon < 2 * H)
       \<and> lon2col H 180 = 2 * H"
  using assms lat2row_lower lat2row_upper lat2row_south_edge
    lon2col_lower lon2col_upper lon2col_east_edge
  by simp

theorem C10_index_range_witness:
  "(0::int) < 4 \<and> (- 90::real) < 45 \<and> (45::real) \<le> 90
   \<and> 0 \<le> lat2row 4 45 \<and> lat2row 4 45 < 4 \<and> lat2row 4 (- 90) = 4
   \<and> (- 180::real) \<le> 10 \<and> (10::real) < 180
   \<and> 0 \<le> lon2col 4 10 \<and> lon2col 4 10 < 2 * 4 \<and> lon2col 4 180 = 2 * 4"
  using C10_index_range [of 4 45 10] by simp

section \<open>A new canvas\<close>

lemma Canvas_init_returns:
  "0 \<le> h \<Longrightarrow> Canvas_init h = Inr (projr (Canvas_init h))"
  by (simp add: Canvas_init_def Let_def)

lemma Canvas_init_fields:
  assumes "0 \<le> h"
  shows "height (projr (Canvas_init h)) = h"
    and "width (projr (Canvas_init h)) = 2 * h"
    and "canvas (projr (Canvas_init h)) = (\<lambda>_ _. 0)"
    and "rgba (projr (Canvas_init h)) = (\<lambda>_ _ _. 0)"
  using assms by (simp_all add: Canvas_init_def Let_def width_def)

lemma Canvas_init_xyz:
  assumes "0 \<le> h"
  shows "xyz (projr (Canvas_init h)) row col
       = (if in_grid h (2 * h) row col then latlon2vec (row2lat h row) (col2lon h col)
          else (0, 0, 0))"
proof -
  let ?F = "\<lambda>row (old :: int \<Rightarrow> vec3) col.
      if 0 \<le> col \<and> col < 2 * h
      then (cos (row2lat h row * pi / 180) * cos (col2lon h col * pi / 180),
            cos (row2lat h row * pi / 180) * sin (col2lon h col * pi / 180),
            sin (row2lat h row * pi / 180))
      else old col"
  have "xyz (projr (Canvas_init h))
      = fold (\<lambda>row a. a(row := ?F row (a row))) [0..h - 1] (\<lambda>_ _. (0, 0, 0))"
    using assms by (simp add: Canvas_init_def Let_def)
  then show ?thesis
    by (simp add: fold_upd_rows [where F = ?F] in_grid_def latlon2vec_def Let_def)
qed

section \<open>The highlight blend of disk\<close>

lemma disk_returns:
  assumes "disk_rect s lat lon diameter = Some (r0, r1, c0, c1)" and "r0 \<le> r1" and "c0 \<le> c1"
  shows "disk s lat lon diameter color transfer
       = Inr (projr (disk s lat lon diameter color transfer))"
proof -
  obtain min_lat max_lat min_lon max_lon
    where box: "disk_box (height s) lat lon diameter = Inr (min_lat, max_lat, min_lon, max_lon)"
      and rect: "box_rect (height s) (width s) min_lat max_lat min_lon max_lon = (r0, r1, c0, c1)"
    using assms(1) by (auto simp add: disk_rect_def split: sum.splits)
  have "np_zeros2 (r1 - r0) (c1 - c0) = Inr (\<lambda>_ _. 0)"
    using assms(2,3) by (simp add: np_zeros2_def)
  then show ?thesis
    using box rect by (simp add: disk_def Let_def)
qed

lemma highlight_channel:
  "highlight rect i a row col j
     = (if in_rect rect row col \<and> j = i
        then to_uint8 (0.5 * real (unat (a row col i)) + 0.5 * 255) else a row col j)"
  by (simp add: highlight_def)

text \<open>
  C9.  A call \<open>disk(lat, lon, diameter, color, transfer=False)\<close> that returns blends
  directly into the RGBA buffer: inside its rectangle the red and the alpha channel are each
  set to \<open>0.5 * old + 0.5 * 255\<close> (stored in a \<open>uint8\<close>, so truncated), outside the
  rectangle no channel changes, the green and blue channels change nowhere, and the result
  does not depend on the color argument.
\<close>

theorem C9_disk_highlight:
  assumes "disk s lat lon diameter color False = Inr s'"
    and "disk_rect s lat lon diameter = Some rect"
  shows "rgba s' row col 1 = rgba s row col 1 \<and> rgba s' row col 2 = rgba s row col 2
       \<and> (in_rect rect row col \<longrightarrow>
            rgba s' row col 0 = to_uint8 (0.5 * real (unat (rgba s row col 0)) + 0.5 * 255)
          \<and> rgba s' row col 3 = to_uint8 (0.5 * real (unat (rgba s row col 3)) + 0.5 * 255))
       \<and> (\<not> in_rect rect row col \<longrightarrow> rgba s' row col = rgba s row col)
       \<and> disk s lat lon diameter color' False = Inr s'"
proof -
  from disk_result [OF assms(1)] assms(2)
  have rg: "rgba s' = highlight rect 3 (highlight rect 0 (rgba s))"
    by auto
  have "disk s lat lon diameter color' False = disk s lat lon diameter color False"
    by (simp add: disk_def Let_def split: sum.splits prod.splits)
  then have indep: "disk s lat lon diameter color' False = Inr s'"
    using assms(1) by simp
  have out: "rgba s' row col = rgba s row col" if "\<not> in_rect rect row col"
    using that by (simp add: rg highlight_def)
  have chans: "rgba s' row col 1 = rgba s row col 1" "rgba s' row col 2 = rgba s row col 2"
    "in_rect rect row col \<Longrightarrow>
       rgba s' row col 0 = to_uint8 (0.5 * real (unat (rgba s row col 0)) + 0.5 * 255)"
    "in_rect rect row col \<Longrightarrow>
       rgba s' row col 3 = to_uint8 (0.5 * real (unat (rgba s row col 3)) + 0.5 * 255)"
    by (simp_all add: rg highlight_channel)
  show ?thesis
    using out chans indep by blast
qed

lemma example_disk_rect:
  "disk_rect (projr (Canvas_init 4)) 0 0 20 = Some (0, 4, 2, 6)"
  by (simp add: disk_rect_def disk_box_def box_rect_def Canvas_init_fields lat2row_def
      lon2col_def Let_def)

theorem C9_disk_highlight_witness:
  "disk (projr (Canvas_init 4)) 0 0 20 (255, 0, 0, 255) False
     = Inr (projr (disk (projr (Canvas_init 4)) 0 0 20 (255, 0, 0, 255) False))
   \<and> disk_rect (projr (Canvas_init 4)) 0 0 20 = Some (0, 4, 2, 6)
   \<and> in_rect (0, 4, 2, 6) 1 3
   \<and> rgba (projr (disk (projr (Canvas_init 4)) 0 0 20 (255, 0, 0, 255) False)) 1 3 0 = 127
   \<and> rgba (projr (disk (projr (Canvas_init 4)) 0 0 20 (255, 0, 0, 255) False)) 1 3 3 = 127
   \<and> rgba (projr (disk (projr (Canvas_init 4)) 0 0 20 (255, 0, 0, 255) False)) 1 3 1 = 0
   \<and> rgba (projr (disk (projr (Canvas_init 4)) 0 0 20 (255, 0, 0, 255) False)) 1 3 2 = 0
   \<and> \<not> in_rect (0, 4, 2, 6) 0 0
   \<and> rgba (projr (disk (projr (Canvas_init 4)) 0 0 20 (255, 0, 0, 255) False)) 0 0
       = rgba (projr (Canvas_init 4)) 0 0
   \<and> disk (projr (Canvas_init 4)) 0 0 20 (0, 0, 255, 7) False
     = Inr (projr (disk (projr (Canvas_init 4)) 0 0 20 (255, 0, 0, 255) False))"
proof -
  have ok: "disk (projr (Canvas_init 4)) 0 0 20 (255, 0, 0, 255) False
     = Inr (projr (disk (projr (Canvas_init 4)) 0 0 20 (255, 0, 0, 255) False))"
    using disk_returns [OF example_disk_rect] by simp
  have inside: "in_rect (0, 4, 2, 6) 1 3" and outside: "\<not> in_rect (0, 4, 2, 6) 0 0"
    by (simp_all add: in_rect_def)
  have v: "to_uint8 (0.5 * real (unat (0 :: 8 word)) + 0.5 * 255) = 127"
    by (simp add: to_uint8_def)
  show ?thesis
    using C9_disk_highlight [OF ok example_disk_rect, of 1 3 "(0, 0, 255, 7)"]
      C9_disk_highlight [OF ok example_disk_rect, of 0 0 "(0, 0, 255, 7)"]
      inside outside v ok
    by (simp add: Canvas_init_fields example_disk_rect)
qed

lemma unat_byte_bound: "real (unat (w :: 8 word)) \<le> 255"
proof -
  have "unat w < 2 ^ 8" using unsigned_less [of w, where ?'a = nat] by simp
  then have "unat w \<le> 255" by simp
  then have "real (unat w) \<le> real 255" by (simp only: of_nat_le_iff)
  then show ?thesis by (simp del: of_nat_unat)
qed

lemma to_uint8_unat:
  assumes "0 \<le> x" and "x < 256"
  shows "unat (to_uint8 x) = nat \<lfloor>x\<rfloor>"
proof -
  have lo: "0 \<le> \<lfloor>x\<rfloor>" using assms(1) by simp
  have hi: "\<lfloor>x\<rfloor> < 2 ^ 8" using assms(2) by (simp add: floor_less_iff)
  have "uint (word_of_int \<lfloor>x\<rfloor> :: 8 word) = \<lfloor>x\<rfloor>"
    using lo hi by (simp add: uint_word_of_int)
  then show ?thesis
    using assms(1) by (simp add: to_uint8_def unat_eq_nat_uint)
qed

lemma to_uint8_zero: "to_uint8 0 = 0"
  by (simp add: to_uint8_def)

lemma to_uint8_of_byte: "to_uint8 (real (unat (w :: 8 word))) = w"
proof -
  have "\<lfloor>real (unat w)\<rfloor> = int (unat w)" by (simp only: floor_of_nat)
  moreover have "word_of_int (int (unat w)) = w" by simp
  moreover have "0 \<le> real (unat w)" by (simp only: of_nat_0_le_iff)
  ultimately show ?thesis by (simp only: to_uint8_def if_True)
qed

lemma unat_byte_nonneg: "0 \<le> real (unat (w :: 8 word))"
  by (simp only: of_nat_0_le_iff)

lemma spec_newA_range:
  assumes "0 \<le> m" and "m \<le> 1"
  shows "0 \<le> spec_newA m ca" and "spec_newA m ca \<le> 1"
proof -
  have a: "0 \<le> real (unat ca)" "real (unat ca) \<le> 255"
    by (rule unat_byte_nonneg, rule unat_byte_bound)
  show "0 \<le> spec_newA m ca"
    unfolding spec_newA_def using assms(1) a(1) by (intro divide_nonneg_nonneg mult_nonneg_nonneg) simp_all
  have "m * real (unat ca) \<le> 1 * 255"
    using assms a by (intro mult_mono) simp_all
  then show "spec_newA m ca \<le> 1"
    unfolding spec_newA_def by simp
qed

lemma spec_combinedA_range:
  assumes "0 \<le> nA" and "nA \<le> 1"
  shows "0 \<le> spec_combinedA nA ea" and "spec_combinedA nA ea \<le> 1"
proof -
  have e: "0 \<le> real (unat ea)" "real (unat ea) \<le> 255"
    by (rule unat_byte_nonneg, rule unat_byte_bound)
  have t: "0 \<le> (1 - nA) * real (unat ea)"
    using assms(2) e(1) by (intro mult_nonneg_nonneg) simp_all
  show "0 \<le> spec_combinedA nA ea"
    unfolding spec_combinedA_def using assms(1) t by (intro add_nonneg_nonneg) simp_all
  have "(1 - nA) * real (unat ea) \<le> (1 - nA) * 255"
    using assms(2) e(2) by (intro mult_left_mono) simp_all
  then have "(1 - nA) * real (unat ea) / 255 \<le> 1 - nA"
    by simp
  then show "spec_combinedA nA ea \<le> 1"
    unfolding spec_combinedA_def by linarith
qed

lemma spec_combinedA_zero:
  assumes "0 \<le> nA" and "nA \<le> 1" and "spec_combinedA nA ea = 0"
  shows "nA = 0" and "ea = 0"
proof -
  have e: "0 \<le> real (unat ea)" by (rule unat_byte_nonneg)
  have t: "0 \<le> (1 - nA) * real (unat ea) / 255"
    using assms(2) e by (intro divide_nonneg_nonneg mult_nonneg_nonneg) simp_all
  from assms(3) have sum0: "nA + (1 - nA) * real (unat ea) / 255 = 0"
    by (simp only: spec_combinedA_def)
  show nA0: "nA = 0" using assms(1) t sum0 by linarith
  from sum0 nA0 have "real (unat ea) = 0" by (simp del: of_nat_unat)
  then have "unat ea = 0" by (simp only: of_nat_eq_0_iff)
  then show "ea = 0" by (simp add: unat_eq_0)
qed




lemma disk_simple_transfer:
  "disk_simple s lat lon diameter color True
     = transfer_canvas_to_rgba (disk_simple s lat lon diameter color False) color"
  by (simp add: disk_simple_def Let_def)

lemma disk_simple_width:
  "width (disk_simple s lat lon diameter color False) = width s"
  by (simp add: width_def disk_simple_frame)

lemma example_disk_test:
  assumes "xyz s 0 0 = latlon2vec 0 (- 90)"
  shows "disk_test s 0 0 360 0 0"
proof -
  have "cos (0.5 * 360 * pi / 180) = - 1" by simp
  moreover have "dot3 (latlon2vec 0 (- 90)) (latlon2vec 0 0) = 0"
    by (simp add: latlon2vec_def Let_def)
  ultimately show ?thesis
    unfolding disk_test_def assms by (simp del: cos_pi)
qed

lemma flush_example_fields:
  "height flush_example = 1" "width flush_example = 2"
  "canvas flush_example 0 0 = 1" "rgba flush_example 0 0 3 = 128"
proof -
  let ?s0 = "projr (Canvas_init 1)"
  let ?s1a = "disk_simple ?s0 0 0 360 (0, 0, 0, 128) False"
  let ?s1 = "transfer_canvas_to_rgba ?s1a (0, 0, 0, 128)"
  have h0: "height ?s0 = 1" "width ?s0 = 2" "canvas ?s0 = (\<lambda>_ _. 0)" "rgba ?s0 = (\<lambda>_ _ _. 0)"
    using Canvas_init_fields [of 1] by simp_all
  have x0: "xyz ?s0 0 0 = latlon2vec 0 (- 90)"
    using Canvas_init_xyz [of 1 0 0] by (simp add: in_grid_def row2lat_def col2lon_def)
  have h1a: "height ?s1a = 1" "width ?s1a = 2" "xyz ?s1a = xyz ?s0" "rgba ?s1a = (\<lambda>_ _ _. 0)"
    by (simp_all add: disk_simple_frame disk_simple_width h0)
  have c1a: "canvas ?s1a 0 0 = 1"
    using example_disk_test [OF x0] by (simp add: disk_simple_canvas h0 in_grid_def)
  have g: "in_grid 1 2 0 0" by (simp add: in_grid_def)
  have h1: "height ?s1 = 1" "width ?s1 = 2" "xyz ?s1 = xyz ?s0"
    by (simp_all add: transfer_frame h1a)
  have a1: "rgba ?s1 0 0 3 = 128"
    using transfer_rgba_alpha [of ?s1a 0 0 "(0, 0, 0, 128)"] g
    by (simp add: h1a c1a spec_combinedA_def spec_newA_def to_uint8_def)
  have fe: "flush_example = disk_simple ?s1 0 0 360 (255, 255, 255, 128) False"
    by (simp only: flush_example_def disk_simple_transfer)
  show "height flush_example = 1" "width flush_example = 2"
    by (simp_all add: fe disk_simple_frame disk_simple_width h1)
  show "canvas flush_example 0 0 = 1"
    using example_disk_test [of ?s1] x0
    by (simp add: fe disk_simple_canvas h1 in_grid_def)
  show "rgba flush_example 0 0 3 = 128"
    by (simp add: fe disk_simple_frame a1)
qed



lemma flush_rgb_zero:
  assumes "in_grid (height s) (width s) r c"
    and "0 \<le> canvas s r c" and "canvas s r c \<le> 1" and "i < 3"
    and "spec_combinedA (spec_newA (canvas s r c) (color_at color 3)) (rgba s r c 3) = 0"
  shows "rgba (transfer_canvas_to_rgba s color) r c i = 0"
proof -
  let ?nA = "spec_newA (canvas s r c) (color_at color 3)"
  have nA: "0 \<le> ?nA" "?nA \<le> 1"
    using assms(2,3) by (rule spec_newA_range)+
  have z: "?nA = 0" "rgba s r c 3 = 0"
    using spec_combinedA_zero [OF nA assms(5)] by blast+
  have "rgba (transfer_canvas_to_rgba s color) r c i = to_uint8 0"
    using transfer_rgba_rgb [OF assms(1,4), of color] assms(5)
    by (simp add: Let_def z)
  then show ?thesis by (simp only: to_uint8_zero)
qed

lemma byte_pos: "0 < real (unat (w :: 8 word)) \<Longrightarrow> 1 \<le> real (unat w)"
proof -
  assume "0 < real (unat w)"
  then have "0 < unat w" by (simp only: of_nat_0_less_iff)
  then have "1 \<le> unat w" by simp
  then have "real 1 \<le> real (unat w)" by (simp only: of_nat_le_iff)
  then show ?thesis by (simp del: of_nat_unat)
qed

lemma flush_alpha_nonzero:
  assumes "in_grid (height s) (width s) r c"
    and "canvas s r c = 0 \<or> canvas s r c = 1"
    and "0 < spec_combinedA (spec_newA (canvas s r c) (color_at color 3)) (rgba s r c 3)"
  shows "rgba (transfer_canvas_to_rgba s color) r c 3 \<noteq> 0"
proof -
  let ?a = "real (unat (color_at color 3))"
  let ?e = "real (unat (rgba s r c 3))"
  let ?nA = "spec_newA (canvas s r c) (color_at color 3)"
  let ?cA = "spec_combinedA ?nA (rgba s r c 3)"
  have m: "0 \<le> canvas s r c" "canvas s r c \<le> 1"
    using assms(2) by auto
  have nA: "0 \<le> ?nA" "?nA \<le> 1"
    using m by (rule spec_newA_range)+
  have cA: "0 \<le> ?cA" "?cA \<le> 1"
    using nA by (rule spec_combinedA_range)+
  have e: "0 \<le> ?e" by (rule unat_byte_nonneg)
  have a: "0 \<le> ?a" "?a \<le> 255" by (rule unat_byte_nonneg, rule unat_byte_bound)
  have eq: "?cA * 255 = ?nA * 255 + (1 - ?nA) * ?e"
    by (simp only: spec_combinedA_def distrib_right times_divide_eq_right)
  have ge1: "1 \<le> ?cA * 255"
  proof (cases "0 < ?nA")
    case False
    then have n0: "?nA = 0" using nA(1) by linarith
    then have "?cA * 255 = ?e" using eq by simp
    moreover have "0 < ?e" using assms(3) n0 by (simp add: spec_combinedA_def)
    ultimately show ?thesis using byte_pos by simp
  next
    case True
    then have m1: "canvas s r c = 1" using assms(2) by (auto simp add: spec_newA_def)
    then have n: "?nA * 255 = ?a" by (simp add: spec_newA_def)
    have "0 < ?a" using True m1 by (simp add: spec_newA_def)
    then have "1 \<le> ?a" by (rule byte_pos)
    moreover have "0 \<le> (1 - ?nA) * ?e"
      using nA(2) e by (intro mult_nonneg_nonneg) simp_all
    ultimately show ?thesis using eq n by linarith
  qed
  have "unat (rgba (transfer_canvas_to_rgba s color) r c 3) = nat \<lfloor>?cA * 255\<rfloor>"
    using cA by (simp only: transfer_rgba_alpha [OF assms(1)]) (rule to_uint8_unat, simp_all)
  moreover have "1 \<le> \<lfloor>?cA * 255\<rfloor>" using ge1 by (simp add: le_floor_iff)
  ultimately have "unat (rgba (transfer_canvas_to_rgba s color) r c 3) \<noteq> 0"
    by simp
  then show ?thesis by (simp add: unat_eq_0)
qed

lemma flush_inv:
  assumes "canvas_inv s"
  shows "canvas_inv (transfer_canvas_to_rgba s color)"
proof -
  let ?s' = "transfer_canvas_to_rgba s color"
  have m: "canvas s r c = 0 \<or> canvas s r c = 1" for r c
    using assms by (simp add: canvas_inv_def)
  have old: "rgba s r c 3 = 0 \<Longrightarrow> i < 3 \<Longrightarrow> rgba s r c i = 0" for r c i
    using assms by (simp add: canvas_inv_def)
  have c: "canvas ?s' r c = 0 \<or> canvas ?s' r c = 1" for r c
    using m [of r c] by (simp add: transfer_canvas)
  have p: "rgba ?s' r c i = 0" if z: "rgba ?s' r c 3 = 0" and i: "i < 3" for r c i
  proof (cases "in_grid (height s) (width s) r c")
    case False
    then show ?thesis using z i old [of r c i] by (simp add: transfer_rgba_outside)
  next
    case True
    let ?cA = "spec_combinedA (spec_newA (canvas s r c) (color_at color 3)) (rgba s r c 3)"
    have mm: "0 \<le> canvas s r c" "canvas s r c \<le> 1" using m [of r c] by auto
    have "0 \<le> ?cA"
      using spec_newA_range [OF mm] by (intro spec_combinedA_range) 
    moreover have "\<not> 0 < ?cA"
      using flush_alpha_nonzero [OF True m] z by blast
    ultimately have "?cA = 0" by linarith
    then show ?thesis using flush_rgb_zero [OF True mm i] by blast
  qed
  show ?thesis
    unfolding canvas_inv_def using c p by blast
qed

lemma segment_result:
  assumes "line_segment_internal s lat_a lon_a lat_b lon_b line_width color False = Inr s'"
  shows "\<exists>rect. segment_rect s lat_a lon_a lat_b lon_b line_width = Some rect
           \<and> canvas s' = (\<lambda>row col. if in_rect rect row col
                 then max (canvas s row col)
                          (of_bool (segment_test s lat_a lon_a lat_b lon_b line_width row col))
                 else canvas s row col)
           \<and> rgba s' = rgba s \<and> height s' = height s \<and> xyz s' = xyz s"
proof -
  obtain min_lat max_lat min_lon max_lon
    where box: "segment_box lat_a lon_a lat_b lon_b line_width
                  = Inr (min_lat, max_lat, min_lon, max_lon)"
    using assms by (auto simp add: line_segment_internal_def Let_def split: sum.splits)
  obtain r0 r1 c0 c1
    where rect: "box_rect (height s) (width s) min_lat max_lat min_lon max_lon = (r0, r1, c0, c1)"
    by (cases "box_rect (height s) (width s) min_lat max_lat min_lon max_lon") auto
  have zeros: "np_zeros2 (r1 - r0) (c1 - c0) = Inr (\<lambda>_ _. 0)"
    using assms box rect
    by (auto simp add: line_segment_internal_def Let_def np_zeros2_def split: if_splits)
  define vec_a where "vec_a = latlon2vec lat_a lon_a"
  define vec_b where "vec_b = latlon2vec lat_b lon_b"
  define orth where "orth = divide3 (cross3 vec_a vec_b) (norm3 (cross3 vec_a vec_b))"
  define lim where "lim = sin ((0.5 * line_width) * pi / 180)"
  let ?F = "\<lambda>row (old :: int \<Rightarrow> real) g.
      if (0 \<le> g \<and> g < c1 - c0) \<and> cap_test orth vec_b (lim\<^sup>2) (xyz s row (c0 + g)) then 1
      else if (0 \<le> g \<and> g < c1 - c0) \<and> cap_test orth vec_a (lim\<^sup>2) (xyz s row (c0 + g)) then 1
      else if (0 \<le> g \<and> g < c1 - c0) \<and> strip_test orth vec_a vec_b lim (xyz s row (c0 + g)) then 1
      else old g"
  let ?local = "fold (\<lambda>(r, row) a. a(r := ?F row (a r)))
      (map (\<lambda>row. (row - r0, row)) [r0..r1 - 1]) (\<lambda>_ _. 0)"
  have s': "s' = s\<lparr>canvas := merge_max (r0, r1, c0, c1) ?local (canvas s)\<rparr>"
    using assms box rect zeros
    unfolding vec_a_def vec_b_def orth_def lim_def
    by (simp add: line_segment_internal_def Let_def cong: if_cong)
  have local: "?local (row - r0) (col - c0)
       = of_bool (segment_test s lat_a lon_a lat_b lon_b line_width row col)"
    if "in_rect (r0, r1, c0, c1) row col" for row col
    using that
    by (subst fold_upd_pairs [where F = ?F])
       (auto simp add: in_rect_def segment_test_def Let_def vec_a_def vec_b_def orth_def lim_def)
  have "segment_rect s lat_a lon_a lat_b lon_b line_width = Some (r0, r1, c0, c1)"
    by (simp add: segment_rect_def box rect)
  moreover have "canvas s' = (\<lambda>row col. if in_rect (r0, r1, c0, c1) row col
                 then max (canvas s row col)
                          (of_bool (segment_test s lat_a lon_a lat_b lon_b line_width row col))
                 else canvas s row col)"
    unfolding s' using merge_max_local [of r0 r1 c0 c1 ?local, OF local] by simp
  ultimately show ?thesis
    by (simp add: s')
qed

lemma segment_flag:
  "line_segment_internal s lat_a lon_a lat_b lon_b line_width color transfer
     = (case line_segment_internal s lat_a lon_a lat_b lon_b line_width color False of
          Inl e \<Rightarrow> Inl e
        | Inr s1 \<Rightarrow> Inr (if transfer then transfer_canvas_to_rgba s1 color else s1))"
  by (simp add: line_segment_internal_def Let_def split: sum.splits prod.splits)

lemma disk_flag:
  "disk s lat lon diameter color transfer
     = (case disk s lat lon diameter color False of
          Inl e \<Rightarrow> Inl e
        | Inr s1 \<Rightarrow> Inr (if transfer then transfer_canvas_to_rgba s1 color else s1))"
  by (simp add: disk_def Let_def split: sum.splits prod.splits)

lemma disk_simple_flag:
  "disk_simple s lat lon diameter color transfer
     = (if transfer
        then transfer_canvas_to_rgba (disk_simple s lat lon diameter color False) color
        else disk_simple s lat lon diameter color False)"
  by (simp add: disk_simple_def Let_def)

lemma circle_simple_flag:
  "circle_simple s lat lon diameter line_width color transfer
     = (if transfer
        then transfer_canvas_to_rgba (circle_simple s lat lon diameter line_width color False) color
        else circle_simple s lat lon diameter line_width color False)"
  by (simp add: circle_simple_def Let_def)

lemma line_simple_flag:
  "line_simple s lat_a lon_a lat_b lon_b line_width color transfer
     = (if transfer
        then transfer_canvas_to_rgba
               (line_simple s lat_a lon_a lat_b lon_b line_width color False) color
        else line_simple s lat_a lon_a lat_b lon_b line_width color False)"
  by (simp add: line_simple_def Let_def)

lemma circle_simple_frame:
  "rgba (circle_simple s lat lon diameter line_width color False) = rgba s"
  "height (circle_simple s lat lon diameter line_width color False) = height s"
  "xyz (circle_simple s lat lon diameter line_width color False) = xyz s"
  by (simp_all add: circle_simple_def Let_def)

lemma line_simple_frame:
  "rgba (line_simple s lat_a lon_a lat_b lon_b line_width color False) = rgba s"
  "height (line_simple s lat_a lon_a lat_b lon_b line_width color False) = height s"
  "xyz (line_simple s lat_a lon_a lat_b lon_b line_width color False) = xyz s"
  by (simp_all add: line_simple_def Let_def)

lemma segment_cover_cong:
  assumes "height s' = height s" and "xyz s' = xyz s"
  shows "segment_cover s' = segment_cover s"
proof -
  have "segment_cover s' lat_a lon_a lat_b lon_b line_width row col
      = segment_cover s lat_a lon_a lat_b lon_b line_width row col"
    for lat_a lon_a lat_b lon_b line_width row col
    by (simp add: segment_cover_def segment_rect_def segment_test_def width_def assms
        split: sum.splits)
  then show ?thesis by (intro ext)
qed

lemma step_cover_cong:
  assumes "height s' = height s" and "xyz s' = xyz s"
  shows "step_cover s' = step_cover s"
  using segment_cover_cong [OF assms] by (simp add: step_cover_def fun_eq_iff)

lemma segment_result_cover:
  assumes "line_segment_internal s lat_a lon_a lat_b lon_b line_width color False = Inr s'"
    and "0 \<le> canvas s row col"
  shows "canvas s' row col
       = max (canvas s row col)
             (of_bool (segment_cover s lat_a lon_a lat_b lon_b line_width row col))"
proof -
  from segment_result [OF assms(1)] obtain rect
    where r: "segment_rect s lat_a lon_a lat_b lon_b line_width = Some rect"
      and c: "canvas s' = (\<lambda>row col. if in_rect rect row col
                 then max (canvas s row col)
                          (of_bool (segment_test s lat_a lon_a lat_b lon_b line_width row col))
                 else canvas s row col)"
    by blast
  show ?thesis
    using assms(2) by (simp add: c segment_cover_def r max_def)
qed

lemma line_loop_result:
  assumes "line_loop vec_a along_a step line_width color ds s = Inr s'"
    and "\<And>row col. 0 \<le> canvas s row col"
  shows "height s' = height s \<and> xyz s' = xyz s \<and> rgba s' = rgba s
       \<and> (\<forall>row col. canvas s' row col
             = max (canvas s row col)
                   (of_bool (\<exists>d\<in>set ds. step_cover s vec_a along_a step line_width d row col)))"
  using assms
proof (induction ds arbitrary: s)
  case Nil
  then show ?case by (simp add: max_absorb1)
next
  case (Cons d ds)
  obtain lat_0 lon_0 lat_1 lon_1
    where ep: "step_endpoints vec_a along_a step d = ((lat_0, lon_0), (lat_1, lon_1))"
    by (metis surj_pair)
  then have v: "vec2latlon (line_vec vec_a along_a (real_of_int d * step)) = (lat_0, lon_0)"
    "vec2latlon (line_vec vec_a along_a (real_of_int (d + 1) * step)) = (lat_1, lon_1)"
    by (simp_all add: step_endpoints_def)
  from Cons.prems(1) v obtain s1
    where seg: "line_segment_internal s lat_0 lon_0 lat_1 lon_1 line_width color False = Inr s1"
      and rest: "line_loop vec_a along_a step line_width color ds s1 = Inr s'"
    by (auto simp add: Let_def split: sum.splits)
  from segment_result [OF seg]
  have f1: "height s1 = height s" "xyz s1 = xyz s" "rgba s1 = rgba s"
    by auto
  have c1: "canvas s1 row col
      = max (canvas s row col) (of_bool (step_cover s vec_a along_a step line_width d row col))"
    for row col
    using segment_result_cover [OF seg Cons.prems(2)] by (simp add: step_cover_def ep)
  have nonneg1: "0 \<le> canvas s1 row col" for row col
    using Cons.prems(2) [of row col] by (simp add: c1 max_def)
  from Cons.IH [OF rest nonneg1]
  have ih: "height s' = height s1" "xyz s' = xyz s1" "rgba s' = rgba s1"
    "\<And>row col. canvas s' row col
        = max (canvas s1 row col)
              (of_bool (\<exists>d\<in>set ds. step_cover s1 vec_a along_a step line_width d row col))"
    by auto
  have cov: "step_cover s1 = step_cover s"
    using f1 by (intro step_cover_cong)
  have "canvas s' row col
      = max (canvas s row col)
            (of_bool (\<exists>d'\<in>set (d # ds). step_cover s vec_a along_a step line_width d' row col))"
    for row col
    using Cons.prems(2) [of row col] by (auto simp add: ih(4) c1 cov max_def)
  then show ?case
    using f1 ih(1,2,3) by simp
qed

lemma line_endpoints_step:
  "line_endpoints lat_a lon_a lat_b lon_b d
     = step_endpoints (latlon2vec lat_a lon_a)
         (cross3 (smult3 (1 / norm3 (cross3 (latlon2vec lat_a lon_a) (latlon2vec lat_b lon_b)))
                         (cross3 (latlon2vec lat_a lon_a) (latlon2vec lat_b lon_b)))
                 (latlon2vec lat_a lon_a))
         (line_angle (latlon2vec lat_a lon_a) (latlon2vec lat_b lon_b)
            / real_of_int (line_divisions
                (line_angle (latlon2vec lat_a lon_a) (latlon2vec lat_b lon_b))))
         d"
  by (simp add: line_endpoints_def step_endpoints_def Let_def)

lemma line_flag:
  "line s lat_a lon_a lat_b lon_b line_width color transfer
     = (case line s lat_a lon_a lat_b lon_b line_width color False of
          Inl e \<Rightarrow> Inl e
        | Inr s1 \<Rightarrow> Inr (if transfer then transfer_canvas_to_rgba s1 color else s1))"
  by (simp add: line_def Let_def split: sum.splits option.splits)

lemma line_result:
  assumes "line s lat_a lon_a lat_b lon_b line_width color False = Inr s'"
    and "\<And>row col. 0 \<le> canvas s row col"
  shows "height s' = height s \<and> xyz s' = xyz s \<and> rgba s' = rgba s
       \<and> (\<forall>row col. canvas s' row col
             = max (canvas s row col)
                   (of_bool (line_cover s lat_a lon_a lat_b lon_b line_width row col)))"
proof -
  define vec_a where "vec_a = latlon2vec lat_a lon_a"
  define vec_b where "vec_b = latlon2vec lat_b lon_b"
  define along_a where
    "along_a = cross3 (smult3 (1 / norm3 (cross3 vec_a vec_b)) (cross3 vec_a vec_b)) vec_a"
  define n where "n = line_divisions (line_angle vec_a vec_b)"
  define step where "step = line_angle vec_a vec_b / real_of_int n"
  have loop: "line_loop vec_a along_a step line_width color [0..n - 1] s = Inr s'"
    using assms(1)
    unfolding vec_a_def vec_b_def along_a_def n_def step_def
    by (auto simp add: line_def Let_def divide3_def split: sum.splits if_splits)
  have ep: "line_endpoints lat_a lon_a lat_b lon_b d = step_endpoints vec_a along_a step d" for d
    unfolding vec_a_def vec_b_def along_a_def n_def step_def by (rule line_endpoints_step)
  have cov: "(\<exists>d\<in>set [0..n - 1]. step_cover s vec_a along_a step line_width d row col)
      \<longleftrightarrow> line_cover s lat_a lon_a lat_b lon_b line_width row col" for row col
  proof -
    have range: "(\<exists>d\<in>set [0..n - 1]. P d) \<longleftrightarrow> (\<exists>d. 0 \<le> d \<and> d < n \<and> P d)"
      for P :: "int \<Rightarrow> bool"
      by auto
    show ?thesis
      unfolding line_cover_def step_cover_def ep range
        n_def [unfolded vec_a_def vec_b_def, symmetric]
      by (rule refl)
  qed
  show ?thesis
    using line_loop_result [OF loop assms(2)] unfolding cov by blast
qed

lemma mask_values_nonneg:
  "canvas_inv s \<Longrightarrow> 0 \<le> canvas s row col"
proof -
  assume "canvas_inv s"
  then have "canvas s row col = 0 \<or> canvas s row col = 1"
    by (simp add: canvas_inv_def)
  then show ?thesis by auto
qed

lemma canvas_invI:
  assumes "\<And>r c. canvas s' r c = 0 \<or> canvas s' r c = 1"
    and "\<And>r c i. rgba s' r c 3 = 0 \<Longrightarrow> i < 3 \<Longrightarrow> rgba s' r c i = 0"
  shows "canvas_inv s'"
  unfolding canvas_inv_def using assms by blast

lemma canvas_inv_mask: "canvas_inv s \<Longrightarrow> canvas s r c = 0 \<or> canvas s r c = 1"
  by (simp add: canvas_inv_def)

lemma canvas_inv_rgb: "canvas_inv s \<Longrightarrow> rgba s r c 3 = 0 \<Longrightarrow> i < 3 \<Longrightarrow> rgba s r c i = 0"
  by (simp add: canvas_inv_def)

lemma max_bool_values:
  "(x :: real) = 0 \<or> x = 1 \<Longrightarrow> max x (of_bool b) = 0 \<or> max x (of_bool b) = 1"
  by (cases b) auto

lemma disk_simple_inv:
  assumes "canvas_inv s"
  shows "canvas_inv (disk_simple s lat lon diameter color False)"
proof (rule canvas_invI)
  fix r c
  show "canvas (disk_simple s lat lon diameter color False) r c = 0
      \<or> canvas (disk_simple s lat lon diameter color False) r c = 1"
    using canvas_inv_mask [OF assms, of r c] by (simp add: disk_simple_canvas)
next
  fix r c i
  assume "rgba (disk_simple s lat lon diameter color False) r c 3 = 0" and "i < (3::nat)"
  then show "rgba (disk_simple s lat lon diameter color False) r c i = 0"
    using canvas_inv_rgb [OF assms] by (simp add: disk_simple_frame)
qed

lemma circle_simple_inv:
  assumes "canvas_inv s"
  shows "canvas_inv (circle_simple s lat lon diameter line_width color False)"
proof (rule canvas_invI)
  fix r c
  show "canvas (circle_simple s lat lon diameter line_width color False) r c = 0
      \<or> canvas (circle_simple s lat lon diameter line_width color False) r c = 1"
    using canvas_inv_mask [OF assms, of r c] by (simp add: circle_simple_canvas)
next
  fix r c i
  assume "rgba (circle_simple s lat lon diameter line_width color False) r c 3 = 0" and "i < (3::nat)"
  then show "rgba (circle_simple s lat lon diameter line_width color False) r c i = 0"
    using canvas_inv_rgb [OF assms] by (simp add: circle_simple_frame)
qed

lemma line_simple_inv:
  assumes "canvas_inv s"
  shows "canvas_inv (line_simple s lat_a lon_a lat_b lon_b line_width color False)"
proof (rule canvas_invI)
  fix r c
  show "canvas (line_simple s lat_a lon_a lat_b lon_b line_width color False) r c = 0
      \<or> canvas (line_simple s lat_a lon_a lat_b lon_b line_width color False) r c = 1"
    using canvas_inv_mask [OF assms, of r c] by (simp add: line_simple_canvas)
next
  fix r c i
  assume "rgba (line_simple s lat_a lon_a lat_b lon_b line_width color False) r c 3 = 0"
    and "i < (3::nat)"
  then show "rgba (line_simple s lat_a lon_a lat_b lon_b line_width color False) r c i = 0"
    using canvas_inv_rgb [OF assms] by (simp add: line_simple_frame)
qed

lemma segment_inv:
  assumes "canvas_inv s"
    and "line_segment_internal s lat_a lon_a lat_b lon_b line_width color False = Inr s'"
  shows "canvas_inv s'"
proof (rule canvas_invI)
  fix r c
  show "canvas s' r c = 0 \<or> canvas s' r c = 1"
    using segment_result_cover [OF assms(2) mask_values_nonneg [OF assms(1)], of r c]
      max_bool_values [OF canvas_inv_mask [OF assms(1), of r c]]
    by simp
next
  fix r c i
  assume "rgba s' r c 3 = 0" and "i < (3::nat)"
  then show "rgba s' r c i = 0"
    using canvas_inv_rgb [OF assms(1)] segment_result [OF assms(2)] by auto
qed

lemma line_inv:
  assumes "canvas_inv s"
    and "line s lat_a lon_a lat_b lon_b line_width color False = Inr s'"
  shows "canvas_inv s'"
proof (rule canvas_invI)
  fix r c
  show "canvas s' r c = 0 \<or> canvas s' r c = 1"
    using line_result [OF assms(2) mask_values_nonneg [OF assms(1)]]
      max_bool_values [OF canvas_inv_mask [OF assms(1), of r c]]
    by simp
next
  fix r c i
  assume "rgba s' r c 3 = 0" and "i < (3::nat)"
  then show "rgba s' r c i = 0"
    using canvas_inv_rgb [OF assms(1)] line_result [OF assms(2) mask_values_nonneg [OF assms(1)]]
    by auto
qed

lemma highlight_nonzero:
  "to_uint8 (0.5 * real (unat (w :: 8 word)) + 0.5 * 255) \<noteq> 0"
proof -
  let ?x = "0.5 * real (unat w) + 0.5 * 255"
  have b: "0 \<le> real (unat w)" "real (unat w) \<le> 255"
    by (rule unat_byte_nonneg, rule unat_byte_bound)
  have r: "0 \<le> ?x" "?x < 256" "127 \<le> ?x" using b by simp_all
  have "unat (to_uint8 ?x) = nat \<lfloor>?x\<rfloor>" using r(1,2) by (rule to_uint8_unat)
  moreover have "127 \<le> \<lfloor>?x\<rfloor>" using r(3) by (simp add: le_floor_iff)
  ultimately have "unat (to_uint8 ?x) \<noteq> 0" by simp
  then show ?thesis by (simp add: unat_eq_0)
qed

lemma disk_inv:
  assumes "canvas_inv s" and "disk s lat lon diameter color False = Inr s'"
  shows "canvas_inv s'"
proof -
  from disk_result [OF assms(2)] obtain rect
    where c: "canvas s' = (\<lambda>row col. if in_rect rect row col
                             then max (canvas s row col)
                                      (of_bool (disk_test s lat lon diameter row col))
                             else canvas s row col)"
      and g: "rgba s' = highlight rect 3 (highlight rect 0 (rgba s))"
    by blast
  show ?thesis
  proof (rule canvas_invI)
    fix r c'
    show "canvas s' r c' = 0 \<or> canvas s' r c' = 1"
      using max_bool_values [OF canvas_inv_mask [OF assms(1), of r c']]
        canvas_inv_mask [OF assms(1), of r c']
      by (simp add: c)
  next
    fix r c' i
    assume z: "rgba s' r c' 3 = 0" and i: "i < (3::nat)"
    show "rgba s' r c' i = 0"
    proof (cases "in_rect rect r c'")
      case True
      then have "rgba s' r c' 3 = to_uint8 (0.5 * real (unat (rgba s r c' 3)) + 0.5 * 255)"
        by (simp add: g highlight_channel)
      then show ?thesis using z highlight_nonzero by metis
    next
      case False
      then have "rgba s' r c' = rgba s r c'" by (simp add: g highlight_def)
      then show ?thesis using z i canvas_inv_rgb [OF assms(1)] by simp
    qed
  qed
qed

lemma init_inv: "Canvas_init h = Inr s \<Longrightarrow> canvas_inv s"
  by (auto simp add: Canvas_init_def Let_def canvas_inv_def split: if_splits)

lemma reachable_inv: "reachable s \<Longrightarrow> canvas_inv s"
proof (induction rule: reachable.induct)
  case (reach_init h s)
  then show ?case by (rule init_inv)
next
  case (reach_flush s color)
  then show ?case by (simp add: flush_inv)
next
  case (reach_disk_simple s lat lon diameter color transfer)
  then show ?case
    by (subst disk_simple_flag) (simp add: flush_inv disk_simple_inv)
next
  case (reach_circle_simple s lat lon diameter line_width color transfer)
  then show ?case
    by (subst circle_simple_flag) (simp add: flush_inv circle_simple_inv)
next
  case (reach_line_simple s lat_a lon_a lat_b lon_b line_width color transfer)
  then show ?case
    by (subst line_simple_flag) (simp add: flush_inv line_simple_inv)
next
  case (reach_segment s lat_a lon_a lat_b lon_b line_width color transfer s')
  from reach_segment.hyps(2) obtain s1
    where s1: "line_segment_internal s lat_a lon_a lat_b lon_b line_width color False = Inr s1"
      and s': "s' = (if transfer then transfer_canvas_to_rgba s1 color else s1)"
    by (subst (asm) segment_flag) (auto split: sum.splits)
  show ?case
    using segment_inv [OF reach_segment.IH s1] by (simp add: s' flush_inv)
next
  case (reach_line s lat_a lon_a lat_b lon_b line_width color transfer s')
  from reach_line.hyps(2) obtain s1
    where s1: "line s lat_a lon_a lat_b lon_b line_width color False = Inr s1"
      and s': "s' = (if transfer then transfer_canvas_to_rgba s1 color else s1)"
    by (subst (asm) line_flag) (auto split: sum.splits)
  show ?case
    using line_inv [OF reach_line.IH s1] by (simp add: s' flush_inv)
next
  case (reach_disk s lat lon diameter color transfer s')
  from reach_disk.hyps(2) obtain s1
    where s1: "disk s lat lon diameter color False = Inr s1"
      and s': "s' = (if transfer then transfer_canvas_to_rgba s1 color else s1)"
    by (subst (asm) disk_flag) (auto split: sum.splits)
  show ?case
    using disk_inv [OF reach_disk.IH s1] by (simp add: s' flush_inv)
qed

text \<open>
  C4.  Flushing a reachable canvas whose mask is zero at every pixel of the grid leaves
  the RGBA buffer unchanged, for every color.
\<close>

theorem C4_flush_noop:
  assumes "reachable s"
    and "\<forall>r c. in_grid (height s) (width s) r c \<longrightarrow> canvas s r c = 0"
  shows "rgba (transfer_canvas_to_rgba s color) = rgba s"
proof (intro ext)
  fix r c i
  let ?s' = "transfer_canvas_to_rgba s color"
  have inv: "canvas_inv s" using assms(1) by (rule reachable_inv)
  show "rgba ?s' r c i = rgba s r c i"
  proof (cases "in_grid (height s) (width s) r c")
    case False
    then show ?thesis by (simp add: transfer_rgba_outside)
  next
    case True
    then have m: "canvas s r c = 0" using assms(2) by blast
    have nA: "spec_newA (canvas s r c) (color_at color 3) = 0"
      by (simp add: spec_newA_def m)
    have cA: "spec_combinedA 0 (rgba s r c 3) = real (unat (rgba s r c 3)) / 255"
      by (simp add: spec_combinedA_def)
    consider "i < 3" | "i = 3" | "3 < i" by linarith
    then show ?thesis
    proof cases
      case 1
      show ?thesis
      proof (cases "0 < real (unat (rgba s r c 3))")
        case pos: True
        have "rgba ?s' r c i = to_uint8 (real (unat (rgba s r c i)))"
          using transfer_rgba_rgb [OF True 1, of color] pos
          by (simp add: Let_def nA cA spec_topWeight_def spec_bottomWeight_def)
        then show ?thesis by (simp only: to_uint8_of_byte)
      next
        case zero: False
        then have "real (unat (rgba s r c 3)) = 0"
          using unat_byte_nonneg [of "rgba s r c 3"] by linarith
        then have "unat (rgba s r c 3) = 0" by (simp only: of_nat_eq_0_iff)
        then have a0: "rgba s r c 3 = 0" by (simp add: unat_eq_0)
        have "rgba ?s' r c i = to_uint8 0"
          using transfer_rgba_rgb [OF True 1, of color]
          by (simp add: Let_def nA spec_combinedA_def a0)
        then show ?thesis
          using canvas_inv_rgb [OF inv a0 1] by (simp only: to_uint8_zero)
      qed
    next
      case 2
      have "rgba ?s' r c 3 = to_uint8 (real (unat (rgba s r c 3)))"
        using transfer_rgba_alpha [OF True, of color] by (simp add: nA cA)
      then show ?thesis by (simp only: 2 to_uint8_of_byte)
    next
      case 3
      then show ?thesis by (simp add: transfer_rgba_other)
    qed
  qed
qed

lemma flush_example_reachable: "reachable flush_example"
  unfolding flush_example_def
  by (intro reach_disk_simple reach_init [of 1]) (rule Canvas_init_returns, simp)

theorem C4_flush_noop_witness:
  "reachable (transfer_canvas_to_rgba flush_example (255, 255, 255, 128))
   \<and> canvas (transfer_canvas_to_rgba flush_example (255, 255, 255, 128)) 0 0 = 0
   \<and> canvas (transfer_canvas_to_rgba flush_example (255, 255, 255, 128)) 0 1 = 0
   \<and> uint (rgba (transfer_canvas_to_rgba flush_example (255, 255, 255, 128)) 0 0 3) = 191
   \<and> rgba (transfer_canvas_to_rgba
             (transfer_canvas_to_rgba flush_example (255, 255, 255, 128)) (0, 255, 0, 255))
       = rgba (transfer_canvas_to_rgba flush_example (255, 255, 255, 128))"
proof -
  let ?s = "transfer_canvas_to_rgba flush_example (255, 255, 255, 128)"
  have r: "reachable ?s"
    by (intro reach_flush flush_example_reachable)
  have z: "\<forall>r c. in_grid (height ?s) (width ?s) r c \<longrightarrow> canvas ?s r c = 0"
    by (simp add: transfer_canvas transfer_frame)
  have g: "in_grid (height flush_example) (width flush_example) 0 0"
    "in_grid (height flush_example) (width flush_example) 0 1"
    by (simp_all add: flush_example_fields in_grid_def)
  have a: "rgba ?s 0 0 3 = to_uint8 (48896 / 255)"
    using transfer_rgba_alpha [OF g(1), of "(255, 255, 255, 128)"]
    by (simp add: flush_example_fields spec_combinedA_def spec_newA_def)
  have "to_uint8 (48896 / 255) = 191" by (simp add: to_uint8_def)
  then have "uint (rgba ?s 0 0 3) = 191" by (simp add: a)
  then show ?thesis
    using C4_flush_noop [OF r z, of "(0, 255, 0, 255)"] r g
    by (simp add: transfer_canvas)
qed

lemma max_mergeI:
  assumes "\<And>row col. 0 \<le> old row col \<and> old row col \<le> (1::real)"
    and "\<And>row col. new row col = max (old row col) (of_bool (cover row col))"
  shows "max_merge old cover new"
proof -
  have "0 \<le> max (old row col) (of_bool (cover row col))
      \<and> max (old row col) (of_bool (cover row col)) \<le> 1
      \<and> old row col \<le> max (old row col) (of_bool (cover row col))" for row col
    using assms(1) [of row col] by (cases "cover row col") (simp_all add: max_def)
  then show ?thesis
    unfolding max_merge_def using assms(2) by simp
qed

lemma set_one_is_max:
  assumes "0 \<le> x" and "x \<le> (1::real)"
  shows "(if b then 1 else x) = max x (of_bool b)"
  using assms by (cases b) (simp_all add: max_def)

lemma disk_result_cover:
  assumes "disk s lat lon diameter color False = Inr s'" and "0 \<le> canvas s row col"
  shows "canvas s' row col
       = max (canvas s row col) (of_bool (disk_cover s lat lon diameter row col))"
proof -
  from disk_result [OF assms(1)] obtain rect
    where r: "disk_rect s lat lon diameter = Some rect"
      and c: "canvas s' = (\<lambda>row col. if in_rect rect row col
                 then max (canvas s row col) (of_bool (disk_test s lat lon diameter row col))
                 else canvas s row col)"
    by blast
  show ?thesis
    using assms(2) by (simp add: c disk_cover_def r max_def)
qed

lemma segment_returns:
  assumes "segment_rect s lat_a lon_a lat_b lon_b line_width = Some (r0, r1, c0, c1)"
    and "r0 \<le> r1" and "c0 \<le> c1"
  shows "line_segment_internal s lat_a lon_a lat_b lon_b line_width color transfer
       = Inr (projr (line_segment_internal s lat_a lon_a lat_b lon_b line_width color transfer))"
proof -
  obtain min_lat max_lat min_lon max_lon
    where box: "segment_box lat_a lon_a lat_b lon_b line_width
                  = Inr (min_lat, max_lat, min_lon, max_lon)"
      and rect: "box_rect (height s) (width s) min_lat max_lat min_lon max_lon = (r0, r1, c0, c1)"
    using assms(1) by (auto simp add: segment_rect_def split: sum.splits)
  have "np_zeros2 (r1 - r0) (c1 - c0) = Inr (\<lambda>_ _. 0)"
    using assms(2,3) by (simp add: np_zeros2_def)
  then show ?thesis
    using box rect by (simp add: line_segment_internal_def Let_def)
qed

text \<open>
  C7.  On a mask with entries in \<open>[0, 1]\<close>, every drawing call with \<open>transfer=False\<close> that
  returns leaves the mask equal to the pointwise maximum of the prior mask and the
  primitive's own 0-or-1 coverage; every entry stays in \<open>[0, 1]\<close> and none decreases.
\<close>

theorem C7_mask_max_merge:
  assumes "\<forall>r c. 0 \<le> canvas s r c \<and> canvas s r c \<le> 1"
  shows "max_merge (canvas s)
           (\<lambda>row col. in_grid (height s) (width s) row col
                       \<and> disk_test s lat lon diameter row col)
           (canvas (disk_simple s lat lon diameter color False))
       \<and> max_merge (canvas s)
           (\<lambda>row col. in_grid (height s) (width s) row col
                       \<and> circle_test s lat lon diameter line_width row col)
           (canvas (circle_simple s lat lon diameter line_width color False))
       \<and> max_merge (canvas s)
           (\<lambda>row col. in_grid (height s) (width s) row col
                       \<and> line_test s lat_a lon_a lat_b lon_b line_width row col)
           (canvas (line_simple s lat_a lon_a lat_b lon_b line_width color False))
       \<and> (case line_segment_internal s lat_a lon_a lat_b lon_b line_width color False of
             Inl e \<Rightarrow> True
           | Inr s' \<Rightarrow> max_merge (canvas s)
                         (segment_cover s lat_a lon_a lat_b lon_b line_width) (canvas s'))
       \<and> (case line s lat_a lon_a lat_b lon_b line_width color False of
             Inl e \<Rightarrow> True
           | Inr s' \<Rightarrow> max_merge (canvas s)
                         (line_cover s lat_a lon_a lat_b lon_b line_width) (canvas s'))
       \<and> (case disk s lat lon diameter color False of
             Inl e \<Rightarrow> True
           | Inr s' \<Rightarrow> max_merge (canvas s) (disk_cover s lat lon diameter) (canvas s'))"
proof -
  have range: "0 \<le> canvas s row col \<and> canvas s row col \<le> 1" for row col
    using assms by blast
  have nonneg: "0 \<le> canvas s row col" for row col
    using range [of row col] by blast
  have d: "max_merge (canvas s)
           (\<lambda>row col. in_grid (height s) (width s) row col
                       \<and> disk_test s lat lon diameter row col)
           (canvas (disk_simple s lat lon diameter color False))"
    using range by (intro max_mergeI) (simp_all add: disk_simple_canvas set_one_is_max)
  have c: "max_merge (canvas s)
           (\<lambda>row col. in_grid (height s) (width s) row col
                       \<and> circle_test s lat lon diameter line_width row col)
           (canvas (circle_simple s lat lon diameter line_width color False))"
    using range by (intro max_mergeI) (simp_all add: circle_simple_canvas set_one_is_max)
  have l: "max_merge (canvas s)
           (\<lambda>row col. in_grid (height s) (width s) row col
                       \<and> line_test s lat_a lon_a lat_b lon_b line_width row col)
           (canvas (line_simple s lat_a lon_a lat_b lon_b line_width color False))"
    using range by (intro max_mergeI) (simp_all add: line_simple_canvas set_one_is_max)
  have seg: "max_merge (canvas s) (segment_cover s lat_a lon_a lat_b lon_b line_width) (canvas s')"
    if "line_segment_internal s lat_a lon_a lat_b lon_b line_width color False = Inr s'" for s'
    using range segment_result_cover [OF that nonneg] by (intro max_mergeI) simp_all
  have ln: "max_merge (canvas s) (line_cover s lat_a lon_a lat_b lon_b line_width) (canvas s')"
    if "line s lat_a lon_a lat_b lon_b line_width color False = Inr s'" for s'
    using range line_result [OF that nonneg] by (intro max_mergeI) simp_all
  have dk: "max_merge (canvas s) (disk_cover s lat lon diameter) (canvas s')"
    if "disk s lat lon diameter color False = Inr s'" for s'
    using range disk_result_cover [OF that nonneg] by (intro max_mergeI) simp_all
  show ?thesis
    using d c l seg ln dk by (simp split: sum.splits)
qed

text \<open>
  The frame of the bounded primitives.  A call of \<open>line_segment_internal\<close> or \<open>disk\<close> with
  \<open>transfer=False\<close> that returns changes no mask or RGBA entry outside its rectangle
  \<open>[r0, r1) \<times> [c0, c1)\<close>; inside the rectangle the mask becomes the maximum of its old
  value and the 0-or-1 result of the primitive's test for that pixel (for the segment: the
  strip test of \<open>line_simple\<close> or one of the two end caps).
\<close>

lemma bounded_frame:
  "(line_segment_internal s lat_a lon_a lat_b lon_b line_width color False = Inr s1 \<longrightarrow>
      (\<exists>rect. segment_rect s lat_a lon_a lat_b lon_b line_width = Some rect
         \<and> (\<not> in_rect rect row col \<longrightarrow>
               canvas s1 row col = canvas s row col \<and> rgba s1 row col = rgba s row col)
         \<and> (in_rect rect row col \<longrightarrow>
               canvas s1 row col
                 = max (canvas s row col)
                       (of_bool (segment_test s lat_a lon_a lat_b lon_b line_width row col)))))
   \<and> (disk s lat lon diameter color False = Inr s2 \<longrightarrow>
      (\<exists>rect. disk_rect s lat lon diameter = Some rect
         \<and> (\<not> in_rect rect row col \<longrightarrow>
               canvas s2 row col = canvas s row col \<and> rgba s2 row col = rgba s row col)
         \<and> (in_rect rect row col \<longrightarrow>
               canvas s2 row col
                 = max (canvas s row col) (of_bool (disk_test s lat lon diameter row col)))))"
proof (intro conjI impI)
  assume a: "line_segment_internal s lat_a lon_a lat_b lon_b line_width color False = Inr s1"
  from segment_result [OF a] obtain rect
    where r: "segment_rect s lat_a lon_a lat_b lon_b line_width = Some rect"
      and c: "canvas s1 = (\<lambda>row col. if in_rect rect row col
                 then max (canvas s row col)
                          (of_bool (segment_test s lat_a lon_a lat_b lon_b line_width row col))
                 else canvas s row col)"
      and g: "rgba s1 = rgba s"
    by blast
  show "\<exists>rect. segment_rect s lat_a lon_a lat_b lon_b line_width = Some rect
         \<and> (\<not> in_rect rect row col \<longrightarrow>
               canvas s1 row col = canvas s row col \<and> rgba s1 row col = rgba s row col)
         \<and> (in_rect rect row col \<longrightarrow>
               canvas s1 row col
                 = max (canvas s row col)
                       (of_bool (segment_test s lat_a lon_a lat_b lon_b line_width row col)))"
    by (rule exI [of _ rect]) (simp add: r c g)
next
  assume a: "disk s lat lon diameter color False = Inr s2"
  from disk_result [OF a] obtain rect
    where r: "disk_rect s lat lon diameter = Some rect"
      and c: "canvas s2 = (\<lambda>row col. if in_rect rect row col
                 then max (canvas s row col) (of_bool (disk_test s lat lon diameter row col))
                 else canvas s row col)"
      and g: "rgba s2 = highlight rect 3 (highlight rect 0 (rgba s))"
    by blast
  show "\<exists>rect. disk_rect s lat lon diameter = Some rect
         \<and> (\<not> in_rect rect row col \<longrightarrow>
               canvas s2 row col = canvas s row col \<and> rgba s2 row col = rgba s row col)
         \<and> (in_rect rect row col \<longrightarrow>
               canvas s2 row col
                 = max (canvas s row col) (of_bool (disk_test s lat lon diameter row col)))"
    by (rule exI [of _ rect]) (simp add: r c g highlight_def)
qed

lemma cos_gt_abs_lt:
  assumes "0 \<le> \<rho>" and "\<rho> \<le> pi" and "\<bar>x\<bar> \<le> pi" and "cos \<rho> < cos x"
  shows "\<bar>x\<bar> < \<rho>"
proof (rule ccontr)
  assume "\<not> \<bar>x\<bar> < \<rho>"
  then have "\<rho> \<le> \<bar>x\<bar>" by simp
  then have "cos \<bar>x\<bar> \<le> cos \<rho>"
    using assms(1,3) by (intro cos_monotone_0_pi_le) simp_all
  then show False using assms(4) by (simp only: cos_abs_real)
qed

lemma cos_gt_abs_lt_wide:
  assumes "0 \<le> \<rho>" and "\<rho> \<le> pi" and "\<bar>x\<bar> < 2 * pi - \<rho>" and "cos \<rho> < cos x"
  shows "\<bar>x\<bar> < \<rho>"
proof (cases "\<bar>x\<bar> \<le> pi")
  case True
  with assms show ?thesis by (intro cos_gt_abs_lt)
next
  case False
  define y where "y = 2 * pi - \<bar>x\<bar>"
  have y: "\<rho> < y" "y \<le> pi" using assms(3) False by (simp_all add: y_def)
  have "cos y = cos \<bar>x\<bar>" unfolding y_def by (rule cos_2pi_minus)
  then have "cos y = cos x" by (simp only: cos_abs_real)
  moreover have "cos y < cos \<rho>" using assms(1) y by (intro cos_monotone_0_pi)
  ultimately show ?thesis using assms(4) by simp
qed

lemma row2lat_range:
  assumes "0 \<le> row" and "row < H"
  shows "- 90 < row2lat H row" and "row2lat H row < 90"
proof -
  have H: "0 < real_of_int H" using assms by simp
  have "0 < 180 * (real_of_int row + 0.5) / real_of_int H"
    using assms(1) H by (intro divide_pos_pos) simp_all
  then show "row2lat H row < 90" unfolding row2lat_def by linarith
  have "real_of_int row + 0.5 < real_of_int H"
    using assms(2) by simp
  then have "180 * (real_of_int row + 0.5) < 180 * real_of_int H"
    by simp
  then have "180 * (real_of_int row + 0.5) / real_of_int H < 180"
    using H by (simp only: pos_divide_less_eq)
  then show "- 90 < row2lat H row" unfolding row2lat_def by linarith
qed

lemma col2lon_range:
  assumes "0 \<le> col" and "col < 2 * H"
  shows "- 180 < col2lon H col" and "col2lon H col < 180"
proof -
  have H: "0 < real_of_int H" using assms by simp
  have "0 < 180 * (real_of_int col + 0.5) / real_of_int H"
    using assms(1) H by (intro divide_pos_pos) simp_all
  then show "- 180 < col2lon H col" unfolding col2lon_def by linarith
  have "real_of_int col + 0.5 < 2 * real_of_int H"
    using assms(2) by simp
  then have "180 * (real_of_int col + 0.5) < 360 * real_of_int H"
    by simp
  then have "180 * (real_of_int col + 0.5) / real_of_int H < 360"
    using H by (simp only: pos_divide_less_eq)
  then show "col2lon H col < 180" unfolding col2lon_def by linarith
qed

lemma row_index_of_lat:
  assumes "0 < H"
  shows "(90 - row2lat H row) * real_of_int H / 180 = real_of_int row + 0.5"
  using assms by (simp add: row2lat_def)

lemma col_index_of_lon:
  assumes "0 < H"
  shows "(col2lon H col + 180) * real_of_int H / 180 = real_of_int col + 0.5"
  using assms by (simp add: col2lon_def)

lemma lat2row_below:
  assumes "0 < H" and "row2lat H row < lat"
  shows "lat2row H lat \<le> row"
proof -
  have "(90 - lat) * real_of_int H < (90 - row2lat H row) * real_of_int H"
    using assms by simp
  then have "(90 - lat) * real_of_int H / 180 < (90 - row2lat H row) * real_of_int H / 180"
    by simp
  then have "(90 - lat) * real_of_int H / 180 < real_of_int (row + 1)"
    using row_index_of_lat [OF assms(1), of row] by simp
  then have "lat2row H lat < row + 1"
    unfolding lat2row_def by (simp only: floor_less_iff)
  then show ?thesis by simp
qed

lemma lat2row_above:
  assumes "0 < H" and "lat < row2lat H row"
  shows "row \<le> lat2row H lat"
proof -
  have "(90 - row2lat H row) * real_of_int H < (90 - lat) * real_of_int H"
    using assms by simp
  then have "(90 - row2lat H row) * real_of_int H / 180 < (90 - lat) * real_of_int H / 180"
    by simp
  then have "real_of_int row \<le> (90 - lat) * real_of_int H / 180"
    using row_index_of_lat [OF assms(1), of row] by simp
  then show ?thesis
    unfolding lat2row_def by (simp only: le_floor_iff)
qed

lemma lon2col_below:
  assumes "0 < H" and "lon < col2lon H col"
  shows "lon2col H lon \<le> col"
proof -
  have "(lon + 180) * real_of_int H < (col2lon H col + 180) * real_of_int H"
    using assms by simp
  then have "(lon + 180) * real_of_int H / 180 < (col2lon H col + 180) * real_of_int H / 180"
    by simp
  then have "(lon + 180) * real_of_int H / 180 < real_of_int (col + 1)"
    using col_index_of_lon [OF assms(1), of col] by simp
  then have "lon2col H lon < col + 1"
    unfolding lon2col_def by (simp only: floor_less_iff)
  then show ?thesis by simp
qed

lemma lon2col_above:
  assumes "0 < H" and "col2lon H col < lon"
  shows "col \<le> lon2col H lon"
proof -
  have "(col2lon H col + 180) * real_of_int H < (lon + 180) * real_of_int H"
    using assms by simp
  then have "(col2lon H col + 180) * real_of_int H / 180 < (lon + 180) * real_of_int H / 180"
    by simp
  then have "real_of_int col \<le> (lon + 180) * real_of_int H / 180"
    using col_index_of_lon [OF assms(1), of col] by simp
  then show ?thesis
    unfolding lon2col_def by (simp only: le_floor_iff)
qed

text \<open>A pixel whose centre lies strictly inside a latitude/longitude box is in its rectangle.\<close>

lemma box_rect_contains:
  assumes "in_grid H (2 * H) row col"
    and "min_lat < row2lat H row" and "row2lat H row < max_lat"
    and "min_lon < col2lon H col" and "col2lon H col < max_lon"
  shows "in_rect (box_rect H (2 * H) min_lat max_lat min_lon max_lon) row col"
proof -
  have g: "0 \<le> row" "row < H" "0 \<le> col" "col < 2 * H"
    using assms(1) by (simp_all add: in_grid_def)
  then have H: "0 < H" by linarith
  have "lat2row H max_lat \<le> row" using H assms(3) by (rule lat2row_below)
  moreover have "row \<le> lat2row H min_lat" using H assms(2) by (rule lat2row_above)
  moreover have "lon2col H min_lon \<le> col" using H assms(4) by (rule lon2col_below)
  moreover have "col \<le> lon2col H max_lon" using H assms(5) by (rule lon2col_above)
  ultimately show ?thesis
    using g by (simp add: box_rect_def in_rect_def Let_def)
qed

lemma box_rect_in_grid:
  assumes "in_rect (box_rect H W min_lat max_lat min_lon max_lon) row col"
  shows "in_grid H W row col"
  using assms by (simp add: box_rect_def in_rect_def in_grid_def Let_def)

lemma init_grid:
  assumes "Canvas_init h = Inr s"
  shows "0 \<le> height s" and "xyz s = xyz (projr (Canvas_init (height s)))"
proof -
  have h: "0 \<le> h" using assms by (auto simp add: Canvas_init_def split: if_splits)
  have s: "s = projr (Canvas_init h)" using assms by simp
  have "height s = h" unfolding s using h by (rule Canvas_init_fields)
  then show "0 \<le> height s" and "xyz s = xyz (projr (Canvas_init (height s)))"
    using h s by simp_all
qed

lemma reachable_grid:
  "reachable s \<Longrightarrow> 0 \<le> height s \<and> xyz s = xyz (projr (Canvas_init (height s)))"
proof (induction rule: reachable.induct)
  case (reach_init h s)
  then show ?case using init_grid by blast
next
  case (reach_flush s color)
  then show ?case by (simp add: transfer_frame)
next
  case (reach_disk_simple s lat lon diameter color transfer)
  then show ?case
    by (subst (1 2 3) disk_simple_flag) (simp add: transfer_frame disk_simple_frame)
next
  case (reach_circle_simple s lat lon diameter line_width color transfer)
  then show ?case
    by (subst (1 2 3) circle_simple_flag) (simp add: transfer_frame circle_simple_frame)
next
  case (reach_line_simple s lat_a lon_a lat_b lon_b line_width color transfer)
  then show ?case
    by (subst (1 2 3) line_simple_flag) (simp add: transfer_frame line_simple_frame)
next
  case (reach_segment s lat_a lon_a lat_b lon_b line_width color transfer s')
  from reach_segment.hyps(2) obtain s1
    where s1: "line_segment_internal s lat_a lon_a lat_b lon_b line_width color False = Inr s1"
      and s': "s' = (if transfer then transfer_canvas_to_rgba s1 color else s1)"
    by (subst (asm) segment_flag) (auto split: sum.splits)
  have "height s1 = height s" "xyz s1 = xyz s"
    using segment_result [OF s1] by auto
  then show ?case using reach_segment.IH by (simp add: s' transfer_frame)
next
  case (reach_line s lat_a lon_a lat_b lon_b line_width color transfer s')
  from reach_line.hyps(2) obtain s1
    where s1: "line s lat_a lon_a lat_b lon_b line_width color False = Inr s1"
      and s': "s' = (if transfer then transfer_canvas_to_rgba s1 color else s1)"
    by (subst (asm) line_flag) (auto split: sum.splits)
  have "height s1 = height s" "xyz s1 = xyz s"
    using line_result [OF s1 mask_values_nonneg [OF reachable_inv [OF reach_line.hyps(1)]]]
    by auto
  then show ?case using reach_line.IH by (simp add: s' transfer_frame)
next
  case (reach_disk s lat lon diameter color transfer s')
  from reach_disk.hyps(2) obtain s1
    where s1: "disk s lat lon diameter color False = Inr s1"
      and s': "s' = (if transfer then transfer_canvas_to_rgba s1 color else s1)"
    by (subst (asm) disk_flag) (auto split: sum.splits)
  have "height s1 = height s" "xyz s1 = xyz s"
    using disk_result [OF s1] by auto
  then show ?case using reach_disk.IH by (simp add: s' transfer_frame)
qed

lemma reachable_pixel:
  assumes "reachable s" and "in_grid (height s) (width s) row col"
  shows "xyz s row col = latlon2vec (row2lat (height s) row) (col2lon (height s) col)"
proof -
  have "0 \<le> height s" "xyz s = xyz (projr (Canvas_init (height s)))"
    using reachable_grid [OF assms(1)] by simp_all
  then show ?thesis
    using Canvas_init_xyz [of "height s" row col] assms(2) by (simp add: width_def)
qed

lemma equator_dot:
  "dot3 (latlon2vec lat_p lon_p) (latlon2vec 0 lon)
     = cos (lat_p * pi / 180) * cos (lon_p * pi / 180 - lon * pi / 180)"
  by (simp add: latlon2vec_def Let_def cos_diff algebra_simps)

lemma equator_disk_inside:
  assumes "- 90 < lat_p" and "lat_p < 90" and "- 180 < lon_p" and "lon_p < 180"
    and "0 \<le> d" and "d \<le> 180" and "- 180 \<le> lon - 0.5 * d" and "lon + 0.5 * d \<le> 180"
    and "cos (0.5 * d * pi / 180) < dot3 (latlon2vec lat_p lon_p) (latlon2vec 0 lon)"
  shows "\<bar>lat_p\<bar> < 0.5 * d" and "\<bar>lon_p - lon\<bar> < 0.5 * d"
proof -
  define k where "k = pi / 180"
  have k: "0 < k" by (simp add: k_def)
  define \<rho> where "\<rho> = (0.5 * d) * k"
  define \<phi> where "\<phi> = lat_p * k"
  define \<Delta> where "\<Delta> = (lon_p - lon) * k"
  have kpi: "180 * k = pi" by (simp add: k_def)
  have args: "0.5 * d * pi / 180 = \<rho>" "lat_p * pi / 180 = \<phi>"
    "lon_p * pi / 180 - lon * pi / 180 = \<Delta>"
    by (simp_all add: \<rho>_def \<phi>_def \<Delta>_def k_def diff_divide_distrib left_diff_distrib)
  have test: "cos \<rho> < cos \<phi> * cos \<Delta>"
    using assms(9) unfolding equator_dot args .
  have \<rho>: "0 \<le> \<rho>" "\<rho> \<le> pi / 2"
  proof -
    show "0 \<le> \<rho>" unfolding \<rho>_def using assms(5) k by (intro mult_nonneg_nonneg) simp_all
    have "(0.5 * d) * k \<le> 90 * k" using assms(6) k by (intro mult_right_mono) simp_all
    then show "\<rho> \<le> pi / 2" unfolding \<rho>_def using kpi by linarith
  qed
  have \<phi>: "- (pi / 2) < \<phi>" "\<phi> < pi / 2"
  proof -
    have "(- 90) * k < lat_p * k" using assms(1) k by (intro mult_strict_right_mono)
    then show "- (pi / 2) < \<phi>" unfolding \<phi>_def using kpi by linarith
    have "lat_p * k < 90 * k" using assms(2) k by (intro mult_strict_right_mono)
    then show "\<phi> < pi / 2" unfolding \<phi>_def using kpi by linarith
  qed
  have \<Delta>: "\<bar>\<Delta>\<bar> < 2 * pi - \<rho>"
  proof -
    have "\<bar>lon_p - lon\<bar> < 360 - 0.5 * d" using assms(3,4,7,8) by linarith
    then have "\<bar>lon_p - lon\<bar> * k < (360 - 0.5 * d) * k"
      using k by (intro mult_strict_right_mono)
    moreover have "\<bar>\<Delta>\<bar> = \<bar>lon_p - lon\<bar> * k"
      unfolding \<Delta>_def using k by (simp add: abs_mult)
    moreover have "(360 - 0.5 * d) * k = 2 * pi - \<rho>"
      unfolding \<rho>_def using kpi by (simp add: algebra_simps)
    ultimately show ?thesis by simp
  qed
  have c\<rho>: "0 \<le> cos \<rho>" using \<rho> by (intro cos_ge_zero) simp_all
  have c\<phi>: "0 < cos \<phi>" using \<phi> by (rule cos_gt_zero_pi)
  have "0 < cos \<phi> * cos \<Delta>" using test c\<rho> by linarith
  then have c\<Delta>: "0 < cos \<Delta>" using c\<phi> by (simp add: zero_less_mult_iff)
  have "cos \<phi> * cos \<Delta> \<le> cos \<phi> * 1"
    using c\<phi> by (intro mult_left_mono) simp_all
  then have lat: "cos \<rho> < cos \<phi>" using test by simp
  have "cos \<phi> * cos \<Delta> \<le> 1 * cos \<Delta>"
    using c\<Delta> by (intro mult_right_mono) simp_all
  then have lon: "cos \<rho> < cos \<Delta>" using test by simp
  have \<phi>pi: "\<bar>\<phi>\<bar> \<le> pi" using \<phi> pi_ge_zero by linarith
  have \<rho>pi': "\<rho> \<le> pi" using \<rho>(2) pi_ge_zero by linarith
  have "\<bar>\<phi>\<bar> < \<rho>"
    by (rule cos_gt_abs_lt [OF \<rho>(1) \<rho>pi' \<phi>pi lat])
  then have "\<bar>lat_p\<bar> * k < (0.5 * d) * k"
    unfolding \<phi>_def \<rho>_def using k by (simp add: abs_mult)
  then show "\<bar>lat_p\<bar> < 0.5 * d" using k by (simp only: mult_less_cancel_right_pos)
  have \<rho>pi: "\<rho> \<le> pi" using \<rho>(2) pi_ge_zero by linarith
  have "\<bar>\<Delta>\<bar> < \<rho>"
    by (rule cos_gt_abs_lt_wide [OF \<rho>(1) \<rho>pi \<Delta> lon])
  then have "\<bar>lon_p - lon\<bar> * k < (0.5 * d) * k"
    unfolding \<Delta>_def \<rho>_def using k by (simp add: abs_mult)
  then show "\<bar>lon_p - lon\<bar> < 0.5 * d" using k by (simp only: mult_less_cancel_right_pos)
qed

lemma lat2row_antimono:
  assumes "0 \<le> H" and "lat1 \<le> lat2"
  shows "lat2row H lat2 \<le> lat2row H lat1"
proof -
  have "(90 - lat2) * real_of_int H \<le> (90 - lat1) * real_of_int H"
    using assms by (intro mult_right_mono) simp_all
  then have "(90 - lat2) * real_of_int H / 180 \<le> (90 - lat1) * real_of_int H / 180"
    by simp
  then show ?thesis unfolding lat2row_def by (rule floor_mono)
qed

lemma lon2col_mono:
  assumes "0 \<le> H" and "lon1 \<le> lon2"
  shows "lon2col H lon1 \<le> lon2col H lon2"
proof -
  have "(lon1 + 180) * real_of_int H \<le> (lon2 + 180) * real_of_int H"
    using assms by (intro mult_right_mono) simp_all
  then have "(lon1 + 180) * real_of_int H / 180 \<le> (lon2 + 180) * real_of_int H / 180"
    by simp
  then show ?thesis unfolding lon2col_def by (rule floor_mono)
qed

lemma box_rect_ordered:
  assumes "0 \<le> H" and "min_lat \<le> max_lat" and "min_lat \<le> 90" and "- 90 \<le> max_lat"
    and "min_lon \<le> max_lon" and "min_lon \<le> 180" and "- 180 \<le> max_lon"
    and "box_rect H (2 * H) min_lat max_lat min_lon max_lon = (r0, r1, c0, c1)"
  shows "r0 \<le> r1" and "c0 \<le> c1"
proof -
  have a: "lat2row H max_lat \<le> lat2row H min_lat"
    using assms(1,2) by (rule lat2row_antimono)
  have "lat2row H max_lat \<le> lat2row H (- 90)"
    using assms(1,4) by (rule lat2row_antimono)
  then have b: "lat2row H max_lat \<le> H" by (simp only: lat2row_south_edge)
  have "lat2row H 90 \<le> lat2row H min_lat"
    using assms(1,3) by (rule lat2row_antimono)
  then have c: "0 \<le> lat2row H min_lat" by (simp add: lat2row_def)
  have d: "lon2col H min_lon \<le> lon2col H max_lon"
    using assms(1,5) by (rule lon2col_mono)
  have "lon2col H min_lon \<le> lon2col H 180"
    using assms(1,6) by (rule lon2col_mono)
  then have e: "lon2col H min_lon \<le> 2 * H" by (simp only: lon2col_east_edge)
  have "lon2col H (- 180) \<le> lon2col H max_lon"
    using assms(1,7) by (rule lon2col_mono)
  then have f: "0 \<le> lon2col H max_lon" by (simp add: lon2col_def)
  have r: "r0 = max (lat2row H max_lat - 1) 0" "r1 = min (lat2row H min_lat + 2) H"
    "c0 = max (lon2col H min_lon - 1) 0" "c1 = min (lon2col H max_lon + 2) (2 * H)"
    using assms(8) by (simp_all add: box_rect_def Let_def)
  show "r0 \<le> r1" unfolding r using a b c assms(1) by simp
  show "c0 \<le> c1" unfolding r using d e f assms(1) by simp
qed

lemma equator_disk_box:
  "disk_box H 0 lon diameter
     = Inr (- (0.5 * diameter), 0.5 * diameter, lon - 0.5 * diameter, lon + 0.5 * diameter)"
  by (simp add: disk_box_def Let_def)

text \<open>
  Where the rectangle of \<open>disk\<close> is wide enough.  For a centre on the equator, a diameter
  of at most 180 degrees and a longitude span \<open>lon \<plusminus> diameter/2\<close> inside \<open>[-180, 180]\<close>,
  on every reachable canvas \<open>disk(0, lon, diameter, transfer=False)\<close> returns, it sets
  exactly the pixels that \<open>disk_simple\<close> sets, and the two calls leave the same mask.
\<close>

lemma equator_disk_agrees:
  assumes "reachable s" and "0 \<le> diameter" and "diameter \<le> 180"
    and "- 180 \<le> lon - 0.5 * diameter" and "lon + 0.5 * diameter \<le> 180"
  shows "(\<exists>s1. disk s 0 lon diameter color False = Inr s1
              \<and> canvas s1 = canvas (disk_simple s 0 lon diameter color False))
       \<and> (disk_cover s 0 lon diameter row col
            \<longleftrightarrow> in_grid (height s) (width s) row col \<and> disk_test s 0 lon diameter row col)"
proof -
  let ?H = "height s"
  let ?box = "box_rect ?H (2 * ?H) (- (0.5 * diameter)) (0.5 * diameter)
                (lon - 0.5 * diameter) (lon + 0.5 * diameter)"
  have H: "0 \<le> ?H" using reachable_grid [OF assms(1)] by simp
  have w: "width s = 2 * ?H" by (simp add: width_def)
  have rect: "disk_rect s 0 lon diameter = Some ?box"
    by (simp only: disk_rect_def equator_disk_box w sum.case prod.case)
  obtain r0 r1 c0 c1 where box: "?box = (r0, r1, c0, c1)"
    by (cases ?box) auto
  have ord: "r0 \<le> r1" "c0 \<le> c1"
    using box_rect_ordered [OF H _ _ _ _ _ _ box] assms(2,3,4,5) by simp_all
  have ok: "disk s 0 lon diameter color False
      = Inr (projr (disk s 0 lon diameter color False))"
    using disk_returns [OF _ ord, of s 0 lon diameter] rect box by simp
  have cover: "disk_cover s 0 lon diameter row col
      \<longleftrightarrow> in_grid ?H (width s) row col \<and> disk_test s 0 lon diameter row col" for row col
  proof
    assume "disk_cover s 0 lon diameter row col"
    then have "in_rect ?box row col" "disk_test s 0 lon diameter row col"
      by (simp_all add: disk_cover_def rect)
    then show "in_grid ?H (width s) row col \<and> disk_test s 0 lon diameter row col"
      using box_rect_in_grid [of ?H "2 * ?H"] w by simp
  next
    assume a: "in_grid ?H (width s) row col \<and> disk_test s 0 lon diameter row col"
    then have g: "in_grid ?H (2 * ?H) row col" using w by simp
    then have idx: "0 \<le> row" "row < ?H" "0 \<le> col" "col < 2 * ?H"
      by (simp_all add: in_grid_def)
    have px: "xyz s row col = latlon2vec (row2lat ?H row) (col2lon ?H col)"
      using reachable_pixel [OF assms(1)] a by blast
    have t: "cos (0.5 * diameter * pi / 180)
        < dot3 (latlon2vec (row2lat ?H row) (col2lon ?H col)) (latlon2vec 0 lon)"
      using a by (simp only: disk_test_def px)
    have inside: "\<bar>row2lat ?H row\<bar> < 0.5 * diameter"
      "\<bar>col2lon ?H col - lon\<bar> < 0.5 * diameter"
      using equator_disk_inside [OF row2lat_range [OF idx(1,2)] col2lon_range [OF idx(3,4)]
          assms(2,3,4,5) t]
      by blast+
    have "in_rect ?box row col"
      using inside by (intro box_rect_contains [OF g]) linarith+
    then show "disk_cover s 0 lon diameter row col"
      using a by (simp add: disk_cover_def rect)
  qed
  have inv: "canvas_inv s" using assms(1) by (rule reachable_inv)
  have "canvas (projr (disk s 0 lon diameter color False)) row col
      = canvas (disk_simple s 0 lon diameter color False) row col" for row col
  proof -
    have m: "0 \<le> canvas s row col" "canvas s row col \<le> 1"
      using canvas_inv_mask [OF inv, of row col] by auto
    have "canvas (projr (disk s 0 lon diameter color False)) row col
        = max (canvas s row col) (of_bool (disk_cover s 0 lon diameter row col))"
      using ok m(1) by (rule disk_result_cover)
    also have "\<dots> = (if in_grid ?H (width s) row col \<and> disk_test s 0 lon diameter row col
                     then 1 else canvas s row col)"
      using m by (simp only: cover set_one_is_max)
    also have "\<dots> = canvas (disk_simple s 0 lon diameter color False) row col"
      by (simp only: disk_simple_canvas)
    finally show ?thesis .
  qed
  then have "canvas (projr (disk s 0 lon diameter color False))
      = canvas (disk_simple s 0 lon diameter color False)"
    by (intro ext)
  then show ?thesis
    using ok cover by metis
qed


lemma cross3_self: "cross3 v v = (0, 0, 0)"
  by (cases v) simp

lemma coincident_normal:
  "divide3 (cross3 (latlon2vec lat lon) (latlon2vec lat lon))
           (norm3 (cross3 (latlon2vec lat lon) (latlon2vec lat lon))) = None"
  by (simp add: cross3_self divide3_def)

lemma coincident_line_test:
  "\<not> line_test s lat lon lat lon line_width row col"
  by (simp add: line_test_def coincident_normal strip_test_def)

lemma coincident_line_simple:
  "line_simple s lat lon lat lon line_width color False = s"
proof -
  have "canvas (line_simple s lat lon lat lon line_width color False) = canvas s"
    by (intro ext) (simp add: line_simple_canvas coincident_line_test)
  moreover have "line_simple s lat lon lat lon line_width color False
      = s\<lparr>canvas := canvas (line_simple s lat lon lat lon line_width color False)\<rparr>"
    by (simp add: line_simple_def Let_def)
  ultimately show ?thesis by simp
qed

lemma coincident_line:
  "line s lat lon lat lon line_width color transfer = Inl ValueError"
  by (simp add: line_def Let_def coincident_normal)

text \<open>
  C3 as stated fails: for the coincident endpoints \<open>(0, 0)\<close> and \<open>(0, 0)\<close> the normal of
  \<open>line_simple\<close> is the zero vector divided by its zero norm, and the call returns the
  canvas unchanged, with no signal.
\<close>

theorem C3_coincident_counterexample:
  "norm3 (cross3 (latlon2vec 0 0) (latlon2vec 0 0)) = 0
   \<and> line_simple (projr (Canvas_init 4)) 0 0 0 0 1 (255, 255, 255, 255) False
       = projr (Canvas_init 4)"
  by (simp add: coincident_line_simple cross3_self)

text \<open>
  C3 (as amended).  For coincident endpoints the code makes no check of the plane normal:
  \<open>line_simple\<close> divides the zero cross product by its zero norm, every component of the
  normal is \<open>nan\<close>, no pixel passes the strip test, and the call returns normally; with
  \<open>transfer=False\<close> the canvas is unchanged, with \<open>transfer=True\<close> it is flushed as it
  was.  No InvalidGeometry signal is raised.
\<close>

theorem C3_coincident_line_simple:
  "norm3 (cross3 (latlon2vec lat lon) (latlon2vec lat lon)) = 0
   \<and> line_simple s lat lon lat lon line_width color transfer
       = (if transfer then transfer_canvas_to_rgba s color else s)"
proof -
  have "line_simple s lat lon lat lon line_width color transfer
      = (if transfer
         then transfer_canvas_to_rgba (line_simple s lat lon lat lon line_width color False) color
         else line_simple s lat lon lat lon line_width color False)"
    by (rule line_simple_flag)
  then show ?thesis
    by (simp add: coincident_line_simple cross3_self)
qed








lemma cross3_smult_left: "cross3 (smult3 k u) v = smult3 k (cross3 u v)"
  by (cases u, cases v) (simp add: algebra_simps)

lemma lagrange3:
  "dot3 (cross3 u v) (cross3 u v) = dot3 u u * dot3 v v - (dot3 u v)\<^sup>2"
  by (cases u, cases v) (simp add: power2_eq_square algebra_simps)

lemma norm3_square: "(norm3 v)\<^sup>2 = dot3 v v"
proof (cases v)
  case (fields a0 a1 a2)
  have "0 \<le> a0\<^sup>2 + a1\<^sup>2 + a2\<^sup>2" by simp
  then show ?thesis by (simp add: fields power2_eq_square)
qed


lemma latlon2vec_unit: "dot3 (latlon2vec lat lon) (latlon2vec lat lon) = 1"
proof -
  let ?cl = "cos (lon * pi / 180)" and ?sl = "sin (lon * pi / 180)"
  let ?ca = "cos (lat * pi / 180)" and ?sa = "sin (lat * pi / 180)"
  have a: "?cl\<^sup>2 + ?sl\<^sup>2 = 1" by (rule sin_cos_squared_add2)
  have b: "?ca\<^sup>2 + ?sa\<^sup>2 = 1" by (rule sin_cos_squared_add2)
  have "dot3 (latlon2vec lat lon) (latlon2vec lat lon)
      = (?ca * ?cl)\<^sup>2 + (?ca * ?sl)\<^sup>2 + ?sa\<^sup>2"
    by (simp only: latlon2vec_def Let_def dot3.simps power2_eq_square)
  also have "\<dots> = ?ca\<^sup>2 * (?cl\<^sup>2 + ?sl\<^sup>2) + ?sa\<^sup>2"
    by (simp only: power_mult_distrib distrib_left)
  also have "\<dots> = 1"
    by (simp only: a b mult_1_right)
  finally show ?thesis .
qed

lemma sqrt_one_plus_square_divide:
  assumes "x \<noteq> 0"
  shows "sqrt (1 + (y / x)\<^sup>2) = sqrt (x\<^sup>2 + y\<^sup>2) / \<bar>x\<bar>"
proof -
  have "1 + (y / x)\<^sup>2 = (x\<^sup>2 + y\<^sup>2) / x\<^sup>2"
    using assms by (simp add: power_divide add_divide_distrib)
  then show ?thesis
    by (simp add: real_sqrt_divide)
qed

lemma arctan2_cos_sin:
  assumes "x \<noteq> 0 \<or> y \<noteq> 0"
  shows "cos (arctan2 y x) = x / sqrt (x\<^sup>2 + y\<^sup>2)"
    and "sin (arctan2 y x) = y / sqrt (x\<^sup>2 + y\<^sup>2)"
proof -
  have pos: "0 < sqrt (x\<^sup>2 + y\<^sup>2)"
    using assms by (simp add: sum_power2_gt_zero_iff)
  consider "0 < x" | "x < 0" "0 \<le> y" | "x < 0" "y < 0" | "x = 0" "0 < y" | "x = 0" "y < 0"
    using assms by linarith
  then have "cos (arctan2 y x) = x / sqrt (x\<^sup>2 + y\<^sup>2)
           \<and> sin (arctan2 y x) = y / sqrt (x\<^sup>2 + y\<^sup>2)"
  proof cases
    case 1
    then have s: "sqrt (1 + (y / x)\<^sup>2) = sqrt (x\<^sup>2 + y\<^sup>2) / x"
      using sqrt_one_plus_square_divide [of x y] by simp
    show ?thesis
      using 1 pos by (simp add: arctan2_def cos_arctan sin_arctan s)
  next
    case 2
    then have s: "sqrt (1 + (y / x)\<^sup>2) = sqrt (x\<^sup>2 + y\<^sup>2) / (- x)"
      using sqrt_one_plus_square_divide [of x y] by simp
    show ?thesis
      using 2 pos by (simp add: arctan2_def cos_arctan sin_arctan s)
  next
    case 3
    then have s: "sqrt (1 + (y / x)\<^sup>2) = sqrt (x\<^sup>2 + y\<^sup>2) / (- x)"
      using sqrt_one_plus_square_divide [of x y] by simp
    show ?thesis
      using 3 pos by (simp add: arctan2_def cos_arctan sin_arctan s)
  next
    case 4
    then show ?thesis by (simp add: arctan2_def)
  next
    case 5
    then show ?thesis by (simp add: arctan2_def)
  qed
  then show "cos (arctan2 y x) = x / sqrt (x\<^sup>2 + y\<^sup>2)"
    and "sin (arctan2 y x) = y / sqrt (x\<^sup>2 + y\<^sup>2)"
    by simp_all
qed







lemma arctan2_range:
  assumes "0 \<le> y"
  shows "0 \<le> arctan2 y x" and "arctan2 y x \<le> pi"
proof -
  consider "0 < x" | "x < 0" | "x = 0" by linarith
  then have "0 \<le> arctan2 y x \<and> arctan2 y x \<le> pi"
  proof cases
    case 1
    then have "0 \<le> y / x" using assms by simp
    then have "0 \<le> arctan (y / x)" by (simp only: zero_le_arctan_iff)
    moreover have "arctan (y / x) < pi / 2" by (rule arctan_ubound)
    moreover have "0 < pi" by simp
    ultimately have "0 \<le> arctan (y / x) \<and> arctan (y / x) \<le> pi" by linarith
    then show ?thesis using 1 by (simp add: arctan2_def)
  next
    case 2
    then have "y / x \<le> 0" using assms by (simp add: divide_nonneg_neg)
    then have "arctan (y / x) \<le> 0" by (simp only: arctan_le_zero_iff)
    moreover have "- (pi / 2) < arctan (y / x)" by (rule arctan_lbound)
    moreover have "0 < pi" by simp
    ultimately have "0 \<le> arctan (y / x) + pi \<and> arctan (y / x) + pi \<le> pi" by linarith
    then show ?thesis using 2 assms by (simp add: arctan2_def)
  next
    case 3
    then show ?thesis using assms by (simp add: arctan2_def)
  qed
  then show "0 \<le> arctan2 y x" and "arctan2 y x \<le> pi" by simp_all
qed




lemma line_divisions_floor:
  assumes "0 \<le> angle"
  shows "line_divisions angle = \<lfloor>angle / 5\<rfloor> + 1"
proof -
  have "0 \<le> angle / 5 + 1" using assms by simp
  then have "line_divisions angle = \<lfloor>angle / 5 + 1\<rfloor>"
    by (simp add: line_divisions_def Let_def py_int_def)
  then show ?thesis by simp
qed


lemma norm3_dot: "norm3 v = sqrt (dot3 v v)"
  by (cases v) (simp add: power2_eq_square)

lemma arctan2_sin_cos:
  assumes "0 \<le> t" and "t \<le> pi"
  shows "arctan2 (sin t) (cos t) = t"
proof -
  have s: "0 \<le> sin t" using assms by (rule sin_ge_zero)
  have one: "(cos t)\<^sup>2 + (sin t)\<^sup>2 = 1" by (rule sin_cos_squared_add2)
  have nz: "cos t \<noteq> 0 \<or> sin t \<noteq> 0"
  proof (rule ccontr)
    assume "\<not> (cos t \<noteq> 0 \<or> sin t \<noteq> 0)"
    then have "(cos t)\<^sup>2 + (sin t)\<^sup>2 = 0" by simp
    then show False using one by simp
  qed
  have c: "cos (arctan2 (sin t) (cos t)) = cos t"
    using arctan2_cos_sin(1) [OF nz] by (simp add: one)
  have lo: "0 \<le> arctan2 (sin t) (cos t)" using s by (rule arctan2_range(1))
  have hi: "arctan2 (sin t) (cos t) \<le> pi" using s by (rule arctan2_range(2))
  show ?thesis using lo hi assms c by (rule cos_inj_pi)
qed

text \<open>The angle \<open>line\<close> computes between two unit vectors is the angle between them.\<close>

lemma line_angle_unit:
  assumes "dot3 u u = 1" and "dot3 v v = 1" and "dot3 u v = cos t" and "0 \<le> t" and "t \<le> pi"
  shows "line_angle u v = t * 180 / pi"
proof -
  have one: "(sin t)\<^sup>2 + (cos t)\<^sup>2 = 1" by (rule sin_cos_squared_add)
  have "dot3 (cross3 u v) (cross3 u v) = 1 - (cos t)\<^sup>2"
    by (simp add: lagrange3 assms(1,2,3))
  also have "\<dots> = (sin t)\<^sup>2" using one by linarith
  finally have "norm3 (cross3 u v) = \<bar>sin t\<bar>" by (simp add: norm3_dot)
  moreover have "0 \<le> sin t" using assms(4,5) by (rule sin_ge_zero)
  ultimately have n: "norm3 (cross3 u v) = sin t" by simp
  show ?thesis
    by (simp add: line_angle_def Let_def n assms(3) arctan2_sin_cos [OF assms(4,5)])
qed

lemma line_angle_cos_sin:
  assumes "dot3 a a = 1" and "dot3 b b = 1"
  shows "cos (line_angle a b * pi / 180) = dot3 a b"
    and "sin (line_angle a b * pi / 180) = norm3 (cross3 a b)"
proof -
  let ?x = "dot3 a b" and ?y = "norm3 (cross3 a b)"
  have "?y\<^sup>2 = 1 - ?x\<^sup>2" by (simp add: norm3_square lagrange3 assms)
  then have sum: "?x\<^sup>2 + ?y\<^sup>2 = 1" by simp
  have nz: "?x \<noteq> 0 \<or> ?y \<noteq> 0"
  proof (rule ccontr)
    assume "\<not> (?x \<noteq> 0 \<or> ?y \<noteq> 0)"
    then have "?x\<^sup>2 + ?y\<^sup>2 = 0" by simp
    then show False using sum by simp
  qed
  have r: "line_angle a b * pi / 180 = arctan2 ?y ?x"
    by (simp add: line_angle_def Let_def)
  show "cos (line_angle a b * pi / 180) = dot3 a b"
    unfolding r using arctan2_cos_sin(1) [OF nz] by (simp add: sum)
  show "sin (line_angle a b * pi / 180) = norm3 (cross3 a b)"
    unfolding r using arctan2_cos_sin(2) [OF nz] by (simp add: sum)
qed

lemma cross3_triple:
  "cross3 (cross3 a b) a = add3 (smult3 (dot3 a a) b) (smult3 (- dot3 a b) a)"
  by (cases a, cases b) (simp add: algebra_simps)

lemma recombine3:
  assumes "n \<noteq> 0"
  shows "add3 (smult3 k a) (smult3 n (smult3 (1 / n) (add3 (smult3 1 b) (smult3 (- k) a)))) = b"
  using assms by (cases a, cases b) simp

lemma line_vec_start: "line_vec a al 0 = a"
  by (cases a, cases al) (simp add: line_vec_def)

text \<open>Rotating \<open>vec_a\<close> by the whole angle arrives at \<open>vec_b\<close>.\<close>

lemma line_vec_end:
  assumes "dot3 a a = 1" and "dot3 b b = 1" and "norm3 (cross3 a b) \<noteq> 0"
  shows "line_vec a (cross3 (smult3 (1 / norm3 (cross3 a b)) (cross3 a b)) a) (line_angle a b) = b"
proof -
  define n where "n = norm3 (cross3 a b)"
  have n: "n \<noteq> 0" unfolding n_def by (rule assms(3))
  have "line_vec a (cross3 (smult3 (1 / n) (cross3 a b)) a) (line_angle a b)
      = add3 (smult3 (dot3 a b) a)
          (smult3 n (smult3 (1 / n) (add3 (smult3 1 b) (smult3 (- dot3 a b) a))))"
    by (simp only: line_vec_def line_angle_cos_sin [OF assms(1,2)] cross3_smult_left
        cross3_triple assms(1) n_def)
  also have "\<dots> = b" using n by (rule recombine3)
  finally show ?thesis by (simp only: n_def)
qed



section \<open>Short lines along the equator\<close>

lemma equator_vec: "latlon2vec 0 x = (cos (x * pi / 180), sin (x * pi / 180), 0)"
  by (simp add: latlon2vec_def Let_def)

lemma degrees_diff: "(y - x) * pi / 180 = y * pi / 180 - x * pi / 180"
  by (simp add: algebra_simps diff_divide_distrib)

lemma equator_cross:
  "cross3 (latlon2vec 0 x) (latlon2vec 0 y) = (0, 0, sin ((y - x) * pi / 180))"
proof -
  have "sin ((y - x) * pi / 180)
      = sin (y * pi / 180) * cos (x * pi / 180) - cos (y * pi / 180) * sin (x * pi / 180)"
    by (simp only: degrees_diff sin_diff)
  then show ?thesis by (simp add: equator_vec mult.commute)
qed

lemma equator_pair_dot:
  "dot3 (latlon2vec 0 x) (latlon2vec 0 y) = cos ((y - x) * pi / 180)"
proof -
  have "cos ((y - x) * pi / 180)
      = cos (y * pi / 180) * cos (x * pi / 180) + sin (y * pi / 180) * sin (x * pi / 180)"
    by (simp only: degrees_diff cos_diff)
  then show ?thesis by (simp add: equator_vec mult.commute)
qed

lemma degrees_range:
  assumes "0 < d" and "d < 180"
  shows "0 < d * pi / 180" and "d * pi / 180 < pi"
proof -
  show "0 < d * pi / 180" using assms(1) by simp
  have "d * pi < 180 * pi" using assms(2) by simp
  then show "d * pi / 180 < pi" by simp
qed

lemma equator_sin_pos:
  assumes "x < y" and "y - x < 180"
  shows "0 < sin ((y - x) * pi / 180)"
proof -
  have "0 < y - x" using assms(1) by simp
  then show ?thesis using assms(2) by (intro sin_gt_zero degrees_range)
qed

lemma equator_norm:
  assumes "x < y" and "y - x < 180"
  shows "norm3 (cross3 (latlon2vec 0 x) (latlon2vec 0 y)) = sin ((y - x) * pi / 180)"
  using equator_sin_pos [OF assms] by (simp add: equator_cross)

lemma equator_normal:
  assumes "x < y" and "y - x < 180"
  shows "divide3 (cross3 (latlon2vec 0 x) (latlon2vec 0 y))
           (norm3 (cross3 (latlon2vec 0 x) (latlon2vec 0 y))) = Some (0, 0, 1)"
  using equator_sin_pos [OF assms]
  by (simp add: equator_norm [OF assms] divide3_def) (simp add: equator_cross)

lemma equator_angle:
  assumes "x < y" and "y - x < 180"
  shows "line_angle (latlon2vec 0 x) (latlon2vec 0 y) = y - x"
proof -
  have d: "0 < y - x" using assms(1) by simp
  have r: "0 \<le> (y - x) * pi / 180" "(y - x) * pi / 180 \<le> pi"
    using degrees_range [OF d assms(2)] by simp_all
  have "line_angle (latlon2vec 0 x) (latlon2vec 0 y) = (y - x) * pi / 180 * 180 / pi"
    using latlon2vec_unit latlon2vec_unit equator_pair_dot r by (rule line_angle_unit)
  then show ?thesis by simp
qed

lemma vec2latlon_equator:
  assumes "0 \<le> x" and "x \<le> 180"
  shows "vec2latlon (latlon2vec 0 x) = (0, x)"
proof -
  have "x * pi \<le> 180 * pi" using assms(2) by simp
  then have r: "0 \<le> x * pi / 180" "x * pi / 180 \<le> pi" using assms(1) by simp_all
  have lon: "arctan2 (sin (x * pi / 180)) (cos (x * pi / 180)) = x * pi / 180"
    using r by (rule arctan2_sin_cos)
  have lat: "arctan2 0 1 = 0" by (simp add: arctan2_def)
  show ?thesis
    by (simp add: equator_vec vec2latlon_def Let_def lon lat)
qed

text \<open>
  A line of less than 5 degrees along the equator is drawn as the single segment between
  its own endpoints.
\<close>

lemma short_equator_line:
  assumes "0 \<le> x" and "x < y" and "y \<le> 180" and "y - x < 5"
  shows "line_divisions (line_angle (latlon2vec 0 x) (latlon2vec 0 y)) = 1"
    and "line_endpoints 0 x 0 y 0 = ((0, x), (0, y))"
    and "line s 0 x 0 y w color False = line_segment_internal s 0 x 0 y w color False"
proof -
  define a where "a = latlon2vec 0 x"
  define b where "b = latlon2vec 0 y"
  define al where "al = cross3 (smult3 (1 / norm3 (cross3 a b)) (cross3 a b)) a"
  have wide: "y - x < 180" using assms(4) by simp
  have ang: "line_angle a b = y - x"
    unfolding a_def b_def using assms(2) wide by (rule equator_angle)
  have n0: "norm3 (cross3 a b) \<noteq> 0"
    unfolding a_def b_def using equator_sin_pos [OF assms(2) wide]
    by (simp add: equator_norm [OF assms(2) wide])
  have "0 \<le> (y - x) / 5" "(y - x) / 5 < 1" using assms(2,4) by simp_all
  then have fl: "\<lfloor>(y - x) / 5\<rfloor> = 0" by (simp add: floor_eq_iff)
  have div: "line_divisions (y - x) = 1"
    using assms(2) by (simp add: line_divisions_floor fl)
  show d1: "line_divisions (line_angle (latlon2vec 0 x) (latlon2vec 0 y)) = 1"
    using div ang by (simp only: a_def b_def)
  have v0: "line_vec a al 0 = a" by (rule line_vec_start)
  have ua: "dot3 a a = 1" unfolding a_def by (rule latlon2vec_unit)
  have ub: "dot3 b b = 1" unfolding b_def by (rule latlon2vec_unit)
  have "line_vec a al (line_angle a b) = b"
    unfolding al_def using ua ub n0 by (rule line_vec_end)
  then have v1: "line_vec a al (y - x) = b" by (simp only: ang)
  have e0: "vec2latlon a = (0, x)"
    unfolding a_def using assms(1,2,3) by (intro vec2latlon_equator) simp_all
  have e1: "vec2latlon b = (0, y)"
    unfolding b_def using assms(1,2,3) by (intro vec2latlon_equator) simp_all
  have "line_endpoints 0 x 0 y 0
      = (vec2latlon (line_vec a al 0), vec2latlon (line_vec a al (y - x)))"
    unfolding a_def b_def al_def
    by (simp add: line_endpoints_def Let_def div ang [unfolded a_def b_def])
  then show "line_endpoints 0 x 0 y 0 = ((0, x), (0, y))"
    by (simp only: v0 v1 e0 e1)
  have dv: "divide3 (cross3 a b) (norm3 (cross3 a b))
      = Some (smult3 (1 / norm3 (cross3 a b)) (cross3 a b))"
    using n0 by (simp add: divide3_def)
  have loop: "line_loop a al (y - x) w color [0] s
      = (case line_segment_internal s 0 x 0 y w color False of
           Inl e \<Rightarrow> Inl e | Inr s' \<Rightarrow> Inr s')"
    by (simp add: Let_def v0 v1 e0 e1 split: sum.splits)
  have "line s 0 x 0 y w color False
      = (case line_loop a al (y - x) w color [0] s of Inl e \<Rightarrow> Inl e | Inr s1 \<Rightarrow> Inr s1)"
    unfolding a_def b_def al_def
    by (simp add: line_def Let_def dv [unfolded a_def b_def] div ang [unfolded a_def b_def]
        del: line_loop.simps split: sum.splits)
  then show "line s 0 x 0 y w color False = line_segment_internal s 0 x 0 y w color False"
    unfolding loop by (simp split: sum.splits)
qed

text \<open>The strip test of a segment along the equator, at a direction on the equator.\<close>

lemma equator_strip:
  assumes "x < q" and "q < y" and "y - x < 180" and "0 < w" and "w < 360"
  shows "strip_test (Some (0, 0, 1)) (latlon2vec 0 x) (latlon2vec 0 y)
           (sin (0.5 * w * pi / 180)) (latlon2vec 0 q)"
proof -
  have "0 < 0.5 * w" "0.5 * w < 180" using assms(4,5) by simp_all
  then have "0 < sin (0.5 * w * pi / 180)"
    by (intro sin_gt_zero degrees_range)
  moreover have "0 < sin ((q - x) * pi / 180)"
    using assms(1,2,3) by (intro equator_sin_pos) simp_all
  moreover have "0 < sin ((y - q) * pi / 180)"
    using assms(1,2,3) by (intro equator_sin_pos) simp_all
  moreover have "sin ((q - x) * pi / 180)
      = sin (q * pi / 180) * cos (x * pi / 180) - cos (q * pi / 180) * sin (x * pi / 180)"
    by (simp only: degrees_diff sin_diff)
  moreover have "sin ((y - q) * pi / 180)
      = sin (y * pi / 180) * cos (q * pi / 180) - cos (y * pi / 180) * sin (q * pi / 180)"
    by (simp only: degrees_diff sin_diff)
  ultimately show ?thesis
    by (simp add: strip_test_def equator_vec Let_def algebra_simps)
qed

section \<open>Primitives over the pixel at longitude 90 of a canvas of height 1\<close>

lemma unit_canvas_pixels:
  "xyz (projr (Canvas_init 1)) 0 0 = latlon2vec 0 (- 90)"
  "xyz (projr (Canvas_init 1)) 0 1 = latlon2vec 0 90"
  using Canvas_init_xyz [of 1 0 0] Canvas_init_xyz [of 1 0 1]
  by (simp_all add: in_grid_def row2lat_def col2lon_def)

lemma flush_example_xyz: "xyz flush_example = xyz (projr (Canvas_init 1))"
  by (simp add: flush_example_def disk_simple_transfer disk_simple_frame transfer_frame)

lemma full_disk_test_east:
  assumes "xyz s 0 1 = latlon2vec 0 90"
  shows "disk_test s 0 0 360 0 1"
proof -
  have "cos (0.5 * 360 * pi / 180) = - 1" by simp
  moreover have "dot3 (latlon2vec 0 90) (latlon2vec 0 0) = 0"
    by (simp add: latlon2vec_def Let_def)
  ultimately show ?thesis
    unfolding disk_test_def assms by (simp del: cos_pi)
qed

lemma flush_example_east: "canvas flush_example 0 1 = 1"
proof -
  let ?s0 = "projr (Canvas_init 1)"
  let ?s1 = "transfer_canvas_to_rgba (disk_simple ?s0 0 0 360 (0, 0, 0, 128) False)
               (0, 0, 0, 128)"
  have h0: "height ?s0 = 1" "width ?s0 = 2"
    using Canvas_init_fields [of 1] by simp_all
  have h1: "height ?s1 = 1" "width ?s1 = 2" "xyz ?s1 = xyz ?s0"
    by (simp_all add: transfer_frame disk_simple_frame disk_simple_width h0)
  have fe: "flush_example = disk_simple ?s1 0 0 360 (255, 255, 255, 128) False"
    by (simp only: flush_example_def disk_simple_transfer)
  have "disk_test ?s1 0 0 360 0 1"
    by (rule full_disk_test_east) (simp add: h1 unit_canvas_pixels)
  then show ?thesis
    by (simp add: fe disk_simple_canvas h1 in_grid_def)
qed

lemma east_disk_test:
  assumes "xyz s 0 1 = latlon2vec 0 90"
  shows "disk_test s 0 90 180 0 1"
proof -
  have "cos (0.5 * 180 * pi / 180) = 0" by simp
  then show ?thesis
    unfolding disk_test_def assms by (simp only: latlon2vec_unit)
qed

lemma west_disk_test:
  assumes "xyz s 0 0 = latlon2vec 0 (- 90)"
  shows "\<not> disk_test s 0 90 180 0 0"
proof -
  have "cos (0.5 * 180 * pi / 180) = 0" by simp
  moreover have "dot3 (latlon2vec 0 (- 90)) (latlon2vec 0 90) = - 1"
    by (simp add: equator_pair_dot)
  ultimately show ?thesis
    unfolding disk_test_def assms by simp
qed

lemma east_disk_rect:
  assumes "height s = 1"
  shows "disk_rect s 0 90 180 = Some (0, 1, 0, 2)"
  by (simp add: disk_rect_def disk_box_def box_rect_def width_def assms lat2row_def
      lon2col_def Let_def)

lemma east_segment_rect:
  assumes "height s = 1"
  shows "segment_rect s 0 88 0 92 4 = Some (0, 1, 0, 2)"
  by (simp add: segment_rect_def segment_box_def box_rect_def width_def assms lat2row_def
      lon2col_def Let_def)

lemma east_line_test:
  assumes "xyz s 0 1 = latlon2vec 0 90"
  shows "line_test s 0 88 0 92 4 0 1"
proof -
  have n: "divide3 (cross3 (latlon2vec 0 88) (latlon2vec 0 92))
      (norm3 (cross3 (latlon2vec 0 88) (latlon2vec 0 92))) = Some (0, 0, 1)"
    by (rule equator_normal) simp_all
  have "strip_test (Some (0, 0, 1)) (latlon2vec 0 88) (latlon2vec 0 92)
      (sin (0.5 * 4 * pi / 180)) (latlon2vec 0 90)"
    by (rule equator_strip) simp_all
  then show ?thesis
    by (simp only: line_test_def n assms)
qed

lemma east_segment_cover:
  assumes "height s = 1" and "xyz s 0 1 = latlon2vec 0 90"
  shows "segment_cover s 0 88 0 92 4 0 1"
proof -
  have "line_test s 0 88 0 92 4 0 1" using assms(2) by (rule east_line_test)
  then have "segment_test s 0 88 0 92 4 0 1"
    by (simp add: segment_test_def line_test_def Let_def)
  then show ?thesis
    by (simp add: segment_cover_def east_segment_rect [OF assms(1)] in_rect_def)
qed

lemma east_line_cover:
  assumes "height s = 1" and "xyz s 0 1 = latlon2vec 0 90"
  shows "line_cover s 0 88 0 92 4 0 1"
proof -
  have d: "line_divisions (line_angle (latlon2vec 0 88) (latlon2vec 0 92)) = 1"
    by (rule short_equator_line(1)) simp_all
  have e: "line_endpoints 0 88 0 92 0 = ((0, 88), (0, 92))"
    by (rule short_equator_line(2)) simp_all
  have "0 \<le> (0::int) \<and> 0 < line_divisions (line_angle (latlon2vec 0 88) (latlon2vec 0 92))
      \<and> (case line_endpoints 0 88 0 92 0 of
           ((lat_0, lon_0), (lat_1, lon_1)) \<Rightarrow> segment_cover s lat_0 lon_0 lat_1 lon_1 4 0 1)"
    using east_segment_cover [OF assms] by (simp add: d e)
  then show ?thesis
    unfolding line_cover_def by (rule exI [of _ 0])
qed

lemma east_disk_cover:
  assumes "height s = 1" and "xyz s 0 1 = latlon2vec 0 90"
  shows "disk_cover s 0 90 180 0 1"
  using east_disk_test [OF assms(2)]
  by (simp add: disk_cover_def east_disk_rect [OF assms(1)] in_rect_def)

lemma east_returns:
  assumes "height s = 1"
  shows "line_segment_internal s 0 88 0 92 4 color False
           = Inr (projr (line_segment_internal s 0 88 0 92 4 color False))"
    and "line s 0 88 0 92 4 color False = Inr (projr (line s 0 88 0 92 4 color False))"
    and "disk s 0 90 180 color False = Inr (projr (disk s 0 90 180 color False))"
proof -
  show seg: "line_segment_internal s 0 88 0 92 4 color False
           = Inr (projr (line_segment_internal s 0 88 0 92 4 color False))"
    using segment_returns [OF east_segment_rect [OF assms]] by simp
  have "line s 0 88 0 92 4 color False = line_segment_internal s 0 88 0 92 4 color False"
    by (rule short_equator_line(3)) simp_all
  then show "line s 0 88 0 92 4 color False = Inr (projr (line s 0 88 0 92 4 color False))"
    using seg by (simp only:)
  show "disk s 0 90 180 color False = Inr (projr (disk s 0 90 180 color False))"
    using disk_returns [OF east_disk_rect [OF assms]] by simp
qed

lemma max_mergeD:
  "max_merge old cover new \<Longrightarrow> new row col = max (old row col) (of_bool (cover row col))"
  by (simp add: max_merge_def)

lemma returned_case:
  assumes "f = Inr (projr f)" and "case f of Inl e \<Rightarrow> True | Inr s' \<Rightarrow> P s'"
  shows "P (projr f)"
  using assms by (cases f) simp_all

theorem C7_mask_max_merge_witness:
  "(\<forall>r c. 0 \<le> canvas flush_example r c \<and> canvas flush_example r c \<le> 1)
   \<and> canvas flush_example 0 0 = 1
   \<and> canvas flush_example 0 1 = 1
   \<and> max_merge (canvas flush_example)
        (\<lambda>row col. in_grid (height flush_example) (width flush_example) row col
                    \<and> disk_test flush_example 0 90 180 row col)
        (canvas (disk_simple flush_example 0 90 180 (255, 0, 0, 255) False))
   \<and> disk_test flush_example 0 90 180 0 1
   \<and> \<not> disk_test flush_example 0 90 180 0 0
   \<and> canvas (disk_simple flush_example 0 90 180 (255, 0, 0, 255) False) 0 1 = 1
   \<and> canvas (disk_simple flush_example 0 90 180 (255, 0, 0, 255) False) 0 0 = 1
   \<and> max_merge (canvas flush_example)
        (\<lambda>row col. in_grid (height flush_example) (width flush_example) row col
                    \<and> line_test flush_example 0 88 0 92 4 row col)
        (canvas (line_simple flush_example 0 88 0 92 4 (255, 0, 0, 255) False))
   \<and> line_test flush_example 0 88 0 92 4 0 1
   \<and> canvas (line_simple flush_example 0 88 0 92 4 (255, 0, 0, 255) False) 0 1 = 1
   \<and> line_segment_internal flush_example 0 88 0 92 4 (255, 0, 0, 255) False
       = Inr (projr (line_segment_internal flush_example 0 88 0 92 4 (255, 0, 0, 255) False))
   \<and> max_merge (canvas flush_example) (segment_cover flush_example 0 88 0 92 4)
        (canvas (projr (line_segment_internal flush_example 0 88 0 92 4 (255, 0, 0, 255) False)))
   \<and> segment_cover flush_example 0 88 0 92 4 0 1
   \<and> canvas (projr (line_segment_internal flush_example 0 88 0 92 4 (255, 0, 0, 255) False)) 0 1 = 1
   \<and> line flush_example 0 88 0 92 4 (255, 0, 0, 255) False
       = Inr (projr (line flush_example 0 88 0 92 4 (255, 0, 0, 255) False))
   \<and> max_merge (canvas flush_example) (line_cover flush_example 0 88 0 92 4)
        (canvas (projr (line flush_example 0 88 0 92 4 (255, 0, 0, 255) False)))
   \<and> line_cover flush_example 0 88 0 92 4 0 1
   \<and> canvas (projr (line flush_example 0 88 0 92 4 (255, 0, 0, 255) False)) 0 1 = 1
   \<and> disk flush_example 0 90 180 (255, 0, 0, 255) False
       = Inr (projr (disk flush_example 0 90 180 (255, 0, 0, 255) False))
   \<and> max_merge (canvas flush_example) (disk_cover flush_example 0 90 180)
        (canvas (projr (disk flush_example 0 90 180 (255, 0, 0, 255) False)))
   \<and> disk_cover flush_example 0 90 180 0 1
   \<and> canvas (projr (disk flush_example 0 90 180 (255, 0, 0, 255) False)) 0 1 = 1
   \<and> (\<forall>r c. 0 \<le> canvas (projr (Canvas_init 1)) r c \<and> canvas (projr (Canvas_init 1)) r c \<le> 1)
   \<and> canvas (projr (Canvas_init 1)) 0 1 = 0
   \<and> line (projr (Canvas_init 1)) 0 88 0 92 4 (255, 0, 0, 255) False
       = Inr (projr (line (projr (Canvas_init 1)) 0 88 0 92 4 (255, 0, 0, 255) False))
   \<and> max_merge (canvas (projr (Canvas_init 1))) (line_cover (projr (Canvas_init 1)) 0 88 0 92 4)
        (canvas (projr (line (projr (Canvas_init 1)) 0 88 0 92 4 (255, 0, 0, 255) False)))
   \<and> line_cover (projr (Canvas_init 1)) 0 88 0 92 4 0 1
   \<and> canvas (projr (line (projr (Canvas_init 1)) 0 88 0 92 4 (255, 0, 0, 255) False)) 0 1 = 1"
proof -
  let ?s = "flush_example"
  let ?t = "projr (Canvas_init 1)"
  let ?c = "(255, 0, 0, 255) :: color"
  have hs: "height ?s = 1" "width ?s = 2" by (rule flush_example_fields)+
  have xs: "xyz ?s 0 1 = latlon2vec 0 90" "xyz ?s 0 0 = latlon2vec 0 (- 90)"
    by (simp_all only: flush_example_xyz unit_canvas_pixels)
  have ht: "height ?t = 1" "width ?t = 2" "canvas ?t = (\<lambda>_ _. 0)"
    using Canvas_init_fields [of 1] by simp_all
  have xt: "xyz ?t 0 1 = latlon2vec 0 90" by (rule unit_canvas_pixels)
  have inv: "canvas_inv ?s" using flush_example_reachable by (rule reachable_inv)
  have h: "(\<forall>r c. 0 \<le> canvas flush_example r c \<and> canvas flush_example r c \<le> 1)"
    proof (intro allI)
    fix r c
    show "0 \<le> canvas ?s r c \<and> canvas ?s r c \<le> 1"
      using canvas_inv_mask [OF inv, of r c] by auto
  qed
  have h0: "(\<forall>r c. 0 \<le> canvas (projr (Canvas_init 1)) r c \<and> canvas (projr (Canvas_init 1)) r c \<le> 1)"
    by (simp add: ht)
  have p00: "canvas flush_example 0 0 = 1"
    by (rule flush_example_fields)
  have p01: "canvas flush_example 0 1 = 1"
    by (rule flush_example_east)
  have q01: "canvas (projr (Canvas_init 1)) 0 1 = 0"
    by (simp add: ht)
  note inst = C7_mask_max_merge [OF h, of 0 90 180 ?c 4 0 88 0 92]
  note inst0 = C7_mask_max_merge [OF h0, of 0 90 180 ?c 4 0 88 0 92]
  have m_ds: "max_merge (canvas flush_example)
        (\<lambda>row col. in_grid (height flush_example) (width flush_example) row col
                    \<and> disk_test flush_example 0 90 180 row col)
        (canvas (disk_simple flush_example 0 90 180 (255, 0, 0, 255) False))"
    by (rule inst [THEN conjunct1])
  have m_ls: "max_merge (canvas flush_example)
        (\<lambda>row col. in_grid (height flush_example) (width flush_example) row col
                    \<and> line_test flush_example 0 88 0 92 4 row col)
        (canvas (line_simple flush_example 0 88 0 92 4 (255, 0, 0, 255) False))"
    by (rule inst [THEN conjunct2, THEN conjunct2, THEN conjunct1])
  have t_ds1: "disk_test flush_example 0 90 180 0 1"
    using xs(1) by (rule east_disk_test)
  have t_ds0: "\<not> disk_test flush_example 0 90 180 0 0"
    using xs(2) by (rule west_disk_test)
  have t_ls: "line_test flush_example 0 88 0 92 4 0 1"
    using xs(1) by (rule east_line_test)
  have t_seg: "segment_cover flush_example 0 88 0 92 4 0 1"
    using hs(1) xs(1) by (rule east_segment_cover)
  have t_ln: "line_cover flush_example 0 88 0 92 4 0 1"
    using hs(1) xs(1) by (rule east_line_cover)
  have t_dk: "disk_cover flush_example 0 90 180 0 1"
    using hs(1) xs(1) by (rule east_disk_cover)
  have t_ln0: "line_cover (projr (Canvas_init 1)) 0 88 0 92 4 0 1"
    using ht(1) xt by (rule east_line_cover)
  have r_seg: "line_segment_internal flush_example 0 88 0 92 4 (255, 0, 0, 255) False
       = Inr (projr (line_segment_internal flush_example 0 88 0 92 4 (255, 0, 0, 255) False))"
    using hs(1) by (rule east_returns(1))
  have r_ln: "line flush_example 0 88 0 92 4 (255, 0, 0, 255) False
       = Inr (projr (line flush_example 0 88 0 92 4 (255, 0, 0, 255) False))"
    using hs(1) by (rule east_returns(2))
  have r_dk: "disk flush_example 0 90 180 (255, 0, 0, 255) False
       = Inr (projr (disk flush_example 0 90 180 (255, 0, 0, 255) False))"
    using hs(1) by (rule east_returns(3))
  have r_ln0: "line (projr (Canvas_init 1)) 0 88 0 92 4 (255, 0, 0, 255) False
       = Inr (projr (line (projr (Canvas_init 1)) 0 88 0 92 4 (255, 0, 0, 255) False))"
    using ht(1) by (rule east_returns(2))
  have m_seg: "max_merge (canvas flush_example) (segment_cover flush_example 0 88 0 92 4)
        (canvas (projr (line_segment_internal flush_example 0 88 0 92 4 (255, 0, 0, 255) False)))"
    using r_seg inst [THEN conjunct2, THEN conjunct2, THEN conjunct2, THEN conjunct1]
    by (rule returned_case)
  have m_ln: "max_merge (canvas flush_example) (line_cover flush_example 0 88 0 92 4)
        (canvas (projr (line flush_example 0 88 0 92 4 (255, 0, 0, 255) False)))"
    using r_ln
      inst [THEN conjunct2, THEN conjunct2, THEN conjunct2, THEN conjunct2, THEN conjunct1]
    by (rule returned_case)
  have m_dk: "max_merge (canvas flush_example) (disk_cover flush_example 0 90 180)
        (canvas (projr (disk flush_example 0 90 180 (255, 0, 0, 255) False)))"
    using r_dk
      inst [THEN conjunct2, THEN conjunct2, THEN conjunct2, THEN conjunct2, THEN conjunct2]
    by (rule returned_case)
  have m_ln0: "max_merge (canvas (projr (Canvas_init 1))) (line_cover (projr (Canvas_init 1)) 0 88 0 92 4)
        (canvas (projr (line (projr (Canvas_init 1)) 0 88 0 92 4 (255, 0, 0, 255) False)))"
    using r_ln0
      inst0 [THEN conjunct2, THEN conjunct2, THEN conjunct2, THEN conjunct2, THEN conjunct1]
    by (rule returned_case)
  have v_ds1: "canvas (disk_simple flush_example 0 90 180 (255, 0, 0, 255) False) 0 1 = 1"
    using max_mergeD [OF m_ds, of 0 1] t_ds1 p01 by (simp add: hs in_grid_def)
  have v_ds0: "canvas (disk_simple flush_example 0 90 180 (255, 0, 0, 255) False) 0 0 = 1"
    using max_mergeD [OF m_ds, of 0 0] t_ds0 p00 by (simp add: hs in_grid_def)
  have v_ls: "canvas (line_simple flush_example 0 88 0 92 4 (255, 0, 0, 255) False) 0 1 = 1"
    using max_mergeD [OF m_ls, of 0 1] t_ls p01 by (simp add: hs in_grid_def)
  have v_seg: "canvas (projr (line_segment_internal flush_example 0 88 0 92 4 (255, 0, 0, 255) False)) 0 1 = 1"
    using max_mergeD [OF m_seg, of 0 1] t_seg p01 by simp
  have v_ln: "canvas (projr (line flush_example 0 88 0 92 4 (255, 0, 0, 255) False)) 0 1 = 1"
    using max_mergeD [OF m_ln, of 0 1] t_ln p01 by simp
  have v_dk: "canvas (projr (disk flush_example 0 90 180 (255, 0, 0, 255) False)) 0 1 = 1"
    using max_mergeD [OF m_dk, of 0 1] t_dk p01 by simp
  have v_ln0: "canvas (projr (line (projr (Canvas_init 1)) 0 88 0 92 4 (255, 0, 0, 255) False)) 0 1 = 1"
    using max_mergeD [OF m_ln0, of 0 1] t_ln0 q01 by simp
  show ?thesis
    by (intro conjI) (rule h p00 p01 m_ds t_ds1 t_ds0 v_ds1 v_ds0 m_ls t_ls v_ls r_seg m_seg t_seg v_seg r_ln m_ln t_ln v_ln r_dk m_dk t_dk v_dk h0 q01 r_ln0 m_ln0 t_ln0 v_ln0)+
qed

section \<open>A disk at latitude 60 that the rectangle of \<open>disk\<close> cuts short\<close>

lemma pi_ge_three: "3 \<le> pi"
proof -
  have "sin (pi / 6) \<le> pi / 6" by (rule sin_x_le_x) simp
  then show ?thesis by (simp add: sin_30)
qed

lemma sin_cubic_lower:
  fixes x :: real
  assumes "0 \<le> x"
  shows "x - x ^ 3 / 6 \<le> sin x"
proof -
  have "\<bar>sin x - (\<Sum>m<3. sin_coeff m * x ^ m)\<bar> \<le> inverse (fact 3) * \<bar>x\<bar> ^ 3"
    by (rule Maclaurin_sin_bound)
  moreover have "(\<Sum>m<3. sin_coeff m * x ^ m) = x"
    by (simp add: sin_coeff_def numeral_3_eq_3)
  moreover have "inverse (fact 3) * \<bar>x\<bar> ^ 3 = x ^ 3 / 6"
    using assms by (simp add: numeral_3_eq_3)
  ultimately have "\<bar>sin x - x\<bar> \<le> x ^ 3 / 6" by simp
  then show ?thesis by linarith
qed

lemma sin_interval_lower:
  fixes l x u :: real
  assumes "l \<le> x" and "x \<le> u" and "0 \<le> l" and "u * u \<le> 6"
  shows "l * (1 - u * u / 6) \<le> sin x"
proof -
  have x0: "0 \<le> x" using assms(1,3) by linarith
  have "x * x \<le> u * u" using x0 assms(2) by (intro mult_mono) simp_all
  then have f: "1 - u * u / 6 \<le> 1 - x * x / 6" by simp
  have g: "0 \<le> 1 - u * u / 6" using assms(4) by simp
  have "l * (1 - u * u / 6) \<le> x * (1 - u * u / 6)"
    using assms(1) g by (rule mult_right_mono)
  also have "\<dots> \<le> x * (1 - x * x / 6)"
    using f x0 by (rule mult_left_mono)
  also have "\<dots> = x - x ^ 3 / 6"
    by (simp add: power3_eq_cube algebra_simps)
  also have "\<dots> \<le> sin x" using x0 by (rule sin_cubic_lower)
  finally show ?thesis .
qed

lemma sin_10_lower: "241 / 1458 \<le> sin (pi / 18)"
proof -
  have "1 / 6 \<le> pi / 18" using pi_ge_three by simp
  moreover have "pi / 18 \<le> 2 / 9" using pi_less_4 by simp
  ultimately have "1 / 6 * (1 - 2 / 9 * (2 / 9) / 6) \<le> sin (pi / 18)"
    by (rule sin_interval_lower) simp_all
  then show ?thesis by simp
qed

lemma sin_5_lower: "485 / 5832 \<le> sin (pi / 36)"
proof -
  have "1 / 12 \<le> pi / 36" using pi_ge_three by simp
  moreover have "pi / 36 \<le> 1 / 9" using pi_less_4 by simp
  ultimately have "1 / 12 * (1 - 1 / 9 * (1 / 9) / 6) \<le> sin (pi / 36)"
    by (rule sin_interval_lower) simp_all
  then show ?thesis by simp
qed

lemma cap_gap: "11 * pi / 12348 < 2 * sin (pi / 18) * (1 - cos (pi / 18))"
proof -
  have "cos (2 * (pi / 36)) = 1 - 2 * (sin (pi / 36))\<^sup>2" by (rule cos_double_sin)
  then have c: "1 - cos (pi / 18) = 2 * (sin (pi / 36))\<^sup>2" by simp
  have "(485 / 5832)\<^sup>2 \<le> (sin (pi / 36))\<^sup>2"
    using sin_5_lower by (intro power_mono) simp_all
  then have "241 / 1458 * (485 / 5832)\<^sup>2 \<le> sin (pi / 18) * (sin (pi / 36))\<^sup>2"
    using sin_10_lower by (intro mult_mono) simp_all
  moreover have "(11 * 4 / 12348 :: real) < 4 * (241 / 1458 * (485 / 5832)\<^sup>2)"
    by (simp add: power2_eq_square)
  moreover have "11 * pi / 12348 < 11 * 4 / 12348" using pi_less_4 by simp
  ultimately have "11 * pi / 12348 < 4 * (sin (pi / 18) * (sin (pi / 36))\<^sup>2)" by linarith
  then show ?thesis by (simp only: c)
qed

lemma sin_sum_bound:
  assumes "0 \<le> b" and "2 * b \<le> pi" and "0 \<le> e" and "e \<le> pi"
    and "e < 2 * sin b * (1 - cos b)"
  shows "sin (2 * b + e) < 2 * sin b"
proof -
  have s2: "0 \<le> sin (2 * b)" using assms(1,2) by (intro sin_ge_zero) simp_all
  have se: "0 \<le> sin e" using assms(3,4) by (rule sin_ge_zero)
  have "sin (2 * b) * cos e \<le> sin (2 * b) * 1"
    using s2 by (intro mult_left_mono) simp_all
  moreover have "cos (2 * b) * sin e \<le> 1 * sin e"
    using se by (intro mult_right_mono) simp_all
  moreover have "sin e \<le> e" using assms(3) by (rule sin_x_le_x)
  moreover have "sin (2 * b + e) = sin (2 * b) * cos e + cos (2 * b) * sin e"
    by (rule sin_add)
  ultimately have "sin (2 * b + e) \<le> sin (2 * b) + e" by linarith
  also have "\<dots> = 2 * sin b * cos b + e" by (simp only: sin_double)
  also have "\<dots> < 2 * sin b * cos b + 2 * sin b * (1 - cos b)" using assms(5) by simp
  also have "\<dots> = 2 * sin b" by (simp add: algebra_simps)
  finally show ?thesis .
qed

text \<open>
  The direction at latitude 60, 13830/343 (about 40.32) degrees of longitude from the
  centre \<open>(60, 0)\<close>, is less than 20 degrees away from the centre.
\<close>

lemma far_column_in_cap:
  "cos (20 * pi / 180) < cos (13830 / 343 * pi / 180) / 4 + 3 / 4"
proof -
  define a where "a = 2 * (pi / 18) + 11 * pi / 12348"
  have a2: "13830 / 343 * pi / 180 = 2 * a" by (simp add: a_def)
  have b2: "20 * pi / 180 = 2 * (pi / 18)" by simp
  have lt: "sin a < 2 * sin (pi / 18)"
    unfolding a_def using cap_gap by (intro sin_sum_bound) simp_all
  have "0 \<le> a" by (simp add: a_def)
  moreover have "a \<le> pi" using pi_gt_zero by (simp add: a_def)
  ultimately have ge: "0 \<le> sin a" by (rule sin_ge_zero)
  have "(sin a)\<^sup>2 < (2 * sin (pi / 18))\<^sup>2"
    using lt ge by (intro power_strict_mono) simp_all
  then have sq: "(sin a)\<^sup>2 < 4 * (sin (pi / 18))\<^sup>2" by (simp add: power_mult_distrib)
  have ca: "cos (2 * a) = 1 - 2 * (sin a)\<^sup>2" by (rule cos_double_sin)
  have cb: "cos (2 * (pi / 18)) = 1 - 2 * (sin (pi / 18))\<^sup>2" by (rule cos_double_sin)
  have "1 - 2 * (sin (pi / 18))\<^sup>2 < (1 - 2 * (sin a)\<^sup>2) / 4 + 3 / 4"
    using sq by (simp add: field_simps)
  then show ?thesis
    by (simp only: a2 b2 ca cb)
qed

lemma pixel_dot_60:
  "dot3 (latlon2vec 60 q) (latlon2vec 60 0) = cos (q * pi / 180) / 4 + 3 / 4"
proof -
  have c: "cos (60 * pi / 180) = 1 / 2" using cos_60 by simp
  have s: "sin (60 * pi / 180) = sqrt 3 / 2" using sin_60 by simp
  have "sqrt 3 * sqrt 3 = 3" by simp
  then have "sqrt 3 / 2 * (sqrt 3 / 2) = 3 / 4" by simp
  then show ?thesis
    by (simp only: latlon2vec_def Let_def dot3.simps c s) simp
qed

lemma lat60_disk_rect:
  "disk_rect (projr (Canvas_init 1029)) 60 0 40 = Some (56, 287, 799, 1259)"
proof -
  have "disk_box 1029 60 0 40 = Inr (40, 80, - 40, 40)"
    by (simp add: disk_box_def Let_def cos_60)
  then show ?thesis
    by (simp add: disk_rect_def box_rect_def Canvas_init_fields lat2row_def lon2col_def Let_def)
qed

lemma lat60_pixel:
  "xyz (projr (Canvas_init 1029)) 171 798 = latlon2vec 60 (- (13830 / 343))"
  using Canvas_init_xyz [of 1029 171 798] by (simp add: in_grid_def row2lat_def col2lon_def)

lemma lat60_disk_test: "disk_test (projr (Canvas_init 1029)) 60 0 40 171 798"
proof -
  have "0.5 * 40 * pi / 180 = 20 * pi / 180" by simp
  moreover have "dot3 (latlon2vec 60 (- (13830 / 343))) (latlon2vec 60 0)
      = cos (13830 / 343 * pi / 180) / 4 + 3 / 4"
    by (simp add: pixel_dot_60)
  ultimately show ?thesis
    unfolding disk_test_def lat60_pixel using far_column_in_cap by simp
qed

text \<open>
  C5 does not hold of the code.  On a canvas of height 1029 the disk of diameter 40 centred
  at latitude 60, longitude 0 (a cap between the latitudes 40 and 80) contains the centre
  of pixel \<open>(171, 798)\<close>, at latitude 60 and longitude \<open>-13830/343\<close> (about -40.32), so
  \<open>disk_simple\<close> sets that pixel.  \<open>disk\<close> scans the columns from 799 on: its longitude
  half-width \<open>radius / cos(lat)\<close> of 40 degrees is smaller than the half-width of the cap
  at that latitude, and the pixel keeps its 0.
\<close>

theorem C5_disk_misses_pixel:
  "disk (projr (Canvas_init 1029)) 60 0 40 (255, 255, 255, 255) False
     = Inr (projr (disk (projr (Canvas_init 1029)) 60 0 40 (255, 255, 255, 255) False))
   \<and> in_grid (height (projr (Canvas_init 1029))) (width (projr (Canvas_init 1029))) 171 798
   \<and> canvas (projr (Canvas_init 1029)) 171 798 = 0
   \<and> canvas (disk_simple (projr (Canvas_init 1029)) 60 0 40 (255, 255, 255, 255) False)
        171 798 = 1
   \<and> canvas (projr (disk (projr (Canvas_init 1029)) 60 0 40 (255, 255, 255, 255) False))
        171 798 = 0"
proof -
  let ?s = "projr (Canvas_init 1029)"
  have f: "height ?s = 1029" "width ?s = 2058" "canvas ?s = (\<lambda>_ _. 0)"
    using Canvas_init_fields [of 1029] by simp_all
  have g: "in_grid (height ?s) (width ?s) 171 798" by (simp add: f in_grid_def)
  have z: "canvas ?s 171 798 = 0" by (simp add: f)
  have ok: "disk ?s 60 0 40 (255, 255, 255, 255) False
     = Inr (projr (disk ?s 60 0 40 (255, 255, 255, 255) False))"
    using disk_returns [OF lat60_disk_rect] by simp
  have simple: "canvas (disk_simple ?s 60 0 40 (255, 255, 255, 255) False) 171 798 = 1"
    using lat60_disk_test g by (simp add: disk_simple_canvas)
  have "\<not> disk_cover ?s 60 0 40 171 798"
    by (simp add: disk_cover_def lat60_disk_rect in_rect_def)
  then have "canvas (projr (disk ?s 60 0 40 (255, 255, 255, 255) False)) 171 798 = 0"
    using disk_result_cover [OF ok, of 171 798] by (simp add: f)
  then show ?thesis using ok g z simple by blast
qed

text \<open>
  C6 does not hold of the code in its second half.  For the same disk on the same canvas
  the rectangle is the rows \<open>[56, 287)\<close> and the columns \<open>[799, 1259)\<close>; pixel \<open>(171, 798)\<close>
  lies in the grid, passes the test of \<open>disk_simple\<close>, and is outside the rectangle.
\<close>

theorem C6_rectangle_misses_pixel:
  "disk_rect (projr (Canvas_init 1029)) 60 0 40 = Some (56, 287, 799, 1259)
   \<and> in_grid (height (projr (Canvas_init 1029))) (width (projr (Canvas_init 1029))) 171 798
   \<and> disk_test (projr (Canvas_init 1029)) 60 0 40 171 798
   \<and> \<not> in_rect (56, 287, 799, 1259) 171 798"
proof -
  let ?s = "projr (Canvas_init 1029)"
  have f: "height ?s = 1029" "width ?s = 2058"
    using Canvas_init_fields [of 1029] by simp_all
  have g: "in_grid (height ?s) (width ?s) 171 798" by (simp add: f in_grid_def)
  have o: "\<not> in_rect (56, 287, 799, 1259) 171 798" by (simp add: in_rect_def)
  show ?thesis using lat60_disk_rect lat60_disk_test g o by blast
qed


end
